theory Spec2Isabelle
  imports Main
begin

section \<open>Data model\<close>

text \<open>
  A raw record is one decoded JSON object of the source, a flat dict: its items in
  insertion order, keys distinct. The values are the scalars null, string and number;
  the type of numbers is left open (the source delivers every value as a string).
\<close>

datatype 'n json = JNull | JStr string | JNum 'n

type_synonym 'n raw_record = "(string \<times> 'n json) list"

text \<open>
  One page fetch (lines 49-55): the request, the status check and the decoding either
  yield the page, a list of records, or raise; every exception is caught by the one
  handler of line 53.
\<close>

datatype 'n response = Failed | Page "'n raw_record list"

section \<open>Configuration\<close>

definition STATES_LIST :: "string list" where
  "STATES_LIST = [''AL'', ''SD'']"

definition SPECIALTY_FILTER :: "string list" where
  "SPECIALTY_FILTER = [''ORTHOPEDIC SURGERY'', ''DIAGNOSTIC RADIOLOGY'']"

definition CHUNK_SIZE :: nat where
  "CHUNK_SIZE = 1000"

section \<open>Extraction\<close>

text \<open>\<open>x.get(key)\<close>: the value stored under the key, or None.\<close>

definition dict_get :: "'n raw_record \<Rightarrow> string \<Rightarrow> 'n json" where
  "dict_get x k = (case map_of x k of None \<Rightarrow> JNull | Some v \<Rightarrow> v)"

text \<open>\<open>v in strings\<close>: only a string equals a string.\<close>

fun json_in :: "'n json \<Rightarrow> string list \<Rightarrow> bool" where
  "json_in (JStr s) L = (s \<in> set L)"
| "json_in JNull L = False"
| "json_in (JNum n) L = False"

definition in_specialty_filter :: "'n raw_record \<Rightarrow> bool" where
  "in_specialty_filter x = json_in (dict_get x ''pri_spec'') SPECIALTY_FILTER"

text \<open>
  The \<open>while True\<close> loop of one state (lines 46-65). The source is a function from
  state and offset to the response of that fetch. Besides the accumulated result the
  model keeps the list of fetches issued, in order. The loop has no bound of its own:
  a source that answers every offset with a full page keeps it running, which is the
  value \<open>None\<close>.
\<close>

partial_function (option) paginate ::
  "(string \<Rightarrow> nat \<Rightarrow> 'n response) \<Rightarrow> string \<Rightarrow> nat \<Rightarrow> 'n raw_record list \<Rightarrow> (string \<times> nat) list
     \<Rightarrow> ('n raw_record list \<times> (string \<times> nat) list) option" where
  "paginate fetch state offset result fetched =
     (case fetch state offset of
        Failed \<Rightarrow> Some (result, fetched @ [(state, offset)])
      | Page data \<Rightarrow>
          if data = [] then Some (result, fetched @ [(state, offset)])
          else if length data < CHUNK_SIZE
            then Some (result @ filter in_specialty_filter data, fetched @ [(state, offset)])
            else paginate fetch state (offset + CHUNK_SIZE)
                   (result @ filter in_specialty_filter data) (fetched @ [(state, offset)]))"

text \<open>The \<open>for state in ...\<close> loop (line 42), each state starting at offset 0.\<close>

fun extract_states ::
  "(string \<Rightarrow> nat \<Rightarrow> 'n response) \<Rightarrow> string list \<Rightarrow> 'n raw_record list \<Rightarrow> (string \<times> nat) list
     \<Rightarrow> ('n raw_record list \<times> (string \<times> nat) list) option" where
  "extract_states fetch [] result fetched = Some (result, fetched)"
| "extract_states fetch (state # states) result fetched =
     (case paginate fetch state 0 result fetched of
        None \<Rightarrow> None
      | Some (result', fetched') \<Rightarrow> extract_states fetch states result' fetched')"

definition extract_cms_data ::
  "(string \<Rightarrow> nat \<Rightarrow> 'n response) \<Rightarrow> ('n raw_record list \<times> (string \<times> nat) list) option" where
  "extract_cms_data fetch = extract_states fetch STATES_LIST [] []"

section \<open>Data frames\<close>

text \<open>
  The part of the data-frame library that \<open>transform_data\<close> uses. A frame is column
  major: the row labels (\<open>index\<close>) and the labelled columns in order, every column as
  long as the index. Labels may repeat. A cell is a missing value, which the library
  holds as the float NaN or as None, a string, a number, or a timestamp (the clock
  reading in nanoseconds).
\<close>

datatype 'n cell = NaN | PyNone | Str string | Num 'n | Time int

text \<open>A KeyError names the labels that were not found.\<close>

datatype error = KeyError "string list" | TypeError

record 'n frame =
  index :: "nat list"
  columns :: "(string \<times> 'n cell list) list"

definition labels :: "'n frame \<Rightarrow> string list" where
  "labels df = map fst (columns df)"

text \<open>
  What the library does to a value depends on the column the value stands in and on
  the library's version. These conversions are parameters:
  \<^item> \<open>null_is_nan col\<close>: whether a column built from the values \<open>col\<close> holds a JSON null
    as NaN (a column of the string type) or leaves it None (a column of objects);
  \<^item> \<open>stored col n\<close>: the number held for the JSON number \<open>n\<close> in such a column (a
    column of floats does not hold every integer exactly);
  \<^item> \<open>parse col s\<close>: the number that \<open>pd.to_numeric\<close> puts for the string \<open>s\<close> when it
    converts the column \<open>col\<close>, \<open>None\<close> where \<open>s\<close> is not a number;
  \<^item> \<open>converted col n\<close>: the number that \<open>pd.to_numeric\<close> puts for the number \<open>n\<close> of
    the column \<open>col\<close>.
\<close>

record 'n library =
  null_is_nan :: "'n json option list \<Rightarrow> bool"
  stored :: "'n json option list \<Rightarrow> 'n \<Rightarrow> 'n"
  parse :: "'n cell list \<Rightarrow> string \<Rightarrow> 'n option"
  converted :: "'n cell list \<Rightarrow> 'n \<Rightarrow> 'n"

text \<open>The keys of all records, each once, in order of first appearance.\<close>

definition union_keys :: "'n raw_record list \<Rightarrow> string list" where
  "union_keys raw_list = rev (remdups (rev (concat (map (map fst) raw_list))))"

text \<open>
  What a record contributes to a column, given what all the records contribute to it:
  NaN where the record has no such field.
\<close>

fun cell_of :: "'n library \<Rightarrow> 'n json option list \<Rightarrow> 'n json option \<Rightarrow> 'n cell" where
  "cell_of lib col None = NaN"
| "cell_of lib col (Some JNull) = (if null_is_nan lib col then NaN else PyNone)"
| "cell_of lib col (Some (JStr s)) = Str s"
| "cell_of lib col (Some (JNum n)) = Num (stored lib col n)"

text \<open>\<open>pd.DataFrame(raw_list)\<close> for a list of dicts (line 79).\<close>

definition DataFrame :: "'n library \<Rightarrow> 'n raw_record list \<Rightarrow> 'n frame" where
  "DataFrame lib raw_list =
     \<lparr>index = [0..<length raw_list],
      columns = map (\<lambda>c. (c, map (\<lambda>r. cell_of lib (map (\<lambda>r. map_of r c) raw_list) (map_of r c))
                                raw_list))
                  (union_keys raw_list)\<rparr>"

text \<open>\<open>df.rename(columns=m)\<close>: a label that is a key of \<open>m\<close> is replaced, any other kept.\<close>

definition rename :: "'n frame \<Rightarrow> (string \<times> string) list \<Rightarrow> 'n frame" where
  "rename df m =
     df\<lparr>columns := map (\<lambda>(c, vs). (case map_of m c of None \<Rightarrow> c | Some c' \<Rightarrow> c', vs)) (columns df)\<rparr>"

text \<open>\<open>df.replace({"": None})\<close>: every cell holding the empty string becomes None.\<close>

fun replace_cell :: "'n cell \<Rightarrow> 'n cell" where
  "replace_cell (Str s) = (if s = [] then PyNone else Str s)"
| "replace_cell v = v"

definition replace :: "'n frame \<Rightarrow> 'n frame" where
  "replace df = df\<lparr>columns := map (\<lambda>(c, vs). (c, map replace_cell vs)) (columns df)\<rparr>"

text \<open>
  \<open>df[c]\<close>: KeyError when no column has the label; otherwise the columns that have
  it: one (a Series) or, for a repeated label, several (a DataFrame).
\<close>

definition getitem :: "'n frame \<Rightarrow> string \<Rightarrow> error + 'n cell list list" where
  "getitem df c =
     (case map snd (filter (\<lambda>(l, vs). l = c) (columns df)) of
        [] \<Rightarrow> Inl (KeyError [c])
      | sel \<Rightarrow> Inr sel)"

text \<open>
  \<open>pd.to_numeric(arg, errors="coerce")\<close> converts the column as a whole: what stands
  for a string or a number depends on the other cells (\<open>parse\<close> and \<open>converted\<close> of
  the library). A missing value and a string that is not a number become NaN. The
  columns converted hold no timestamps. An argument that is not one-dimensional is a
  TypeError.
\<close>

fun coerce :: "'n library \<Rightarrow> 'n cell list \<Rightarrow> 'n cell \<Rightarrow> 'n cell" where
  "coerce lib col NaN = NaN"
| "coerce lib col PyNone = NaN"
| "coerce lib col (Str s) = (case parse lib col s of None \<Rightarrow> NaN | Some n \<Rightarrow> Num n)"
| "coerce lib col (Num n) = Num (converted lib col n)"
| "coerce lib col (Time t) = NaN"

fun to_numeric :: "'n library \<Rightarrow> 'n cell list list \<Rightarrow> error + 'n cell list" where
  "to_numeric lib [vs] = Inr (map (coerce lib vs) vs)"
| "to_numeric lib sel = Inl TypeError"

text \<open>\<open>df[c] = vs\<close>: every column labelled \<open>c\<close> is overwritten; a new label is appended.\<close>

definition setitem :: "'n frame \<Rightarrow> string \<Rightarrow> 'n cell list \<Rightarrow> 'n frame" where
  "setitem df c vs =
     (if c \<in> set (labels df)
      then df\<lparr>columns := map (\<lambda>(l, old). if l = c then (l, vs) else (l, old)) (columns df)\<rparr>
      else df\<lparr>columns := columns df @ [(c, vs)]\<rparr>)"

text \<open>
  \<open>df[cs]\<close> for a list of labels: KeyError with the missing labels when there are
  any; otherwise the columns of each label, in the order of \<open>cs\<close>.
\<close>

definition getitem_list :: "'n frame \<Rightarrow> string list \<Rightarrow> error + 'n frame" where
  "getitem_list df cs =
     (case filter (\<lambda>c. c \<notin> set (labels df)) cs of
        [] \<Rightarrow> Inr (df\<lparr>columns := concat (map (\<lambda>c. filter (\<lambda>(l, vs). l = c) (columns df)) cs)\<rparr>)
      | missing \<Rightarrow> Inl (KeyError missing))"

text \<open>
  \<open>duplicated\<close> with \<open>keep="first"\<close>: a row is a duplicate when its key was seen in an
  earlier row. \<open>mask_rows\<close> is selection by a boolean mask.
\<close>

fun duplicated :: "'a list \<Rightarrow> 'a list \<Rightarrow> bool list" where
  "duplicated seen [] = []"
| "duplicated seen (k # ks) = (k \<in> set seen) # duplicated (k # seen) ks"

definition mask_rows :: "bool list \<Rightarrow> 'a list \<Rightarrow> 'a list" where
  "mask_rows m xs = map snd (filter fst (zip m xs))"

definition key_rows :: "'n frame \<Rightarrow> string list \<Rightarrow> 'n cell list list" where
  "key_rows df cs =
     map (\<lambda>i. map (\<lambda>(l, vs). vs ! i) (filter (\<lambda>(l, vs). l \<in> set cs) (columns df)))
       [0..<length (index df)]"

text \<open>All missing values as one.\<close>

fun fold_null :: "'n cell \<Rightarrow> 'n cell" where
  "fold_null PyNone = NaN"
| "fold_null v = v"

text \<open>
  \<open>df.drop_duplicates(subset=cs)\<close>: the rows that are not duplicates, labels kept.
  With one key label and no label repeated in the frame, the library compares the key
  cells themselves, and NaN and None are different keys. Otherwise it numbers the
  values of each key column first, all missing values alike, and compares the numbers.
  (The frame has rows and columns here.)
\<close>

definition drop_duplicates :: "'n frame \<Rightarrow> string list \<Rightarrow> error + 'n frame" where
  "drop_duplicates df cs =
     (case filter (\<lambda>c. c \<notin> set (labels df)) cs of
        [] \<Rightarrow>
          let keys = (if length cs = 1 \<and> distinct (labels df) then key_rows df cs
                      else map (map fold_null) (key_rows df cs));
              keep = map Not (duplicated [] keys)
          in Inr \<lparr>index = mask_rows keep (index df),
                  columns = map (\<lambda>(l, vs). (l, mask_rows keep vs)) (columns df)\<rparr>
      | missing \<Rightarrow> Inl (KeyError missing))"

text \<open>\<open>df.drop(columns=cs)\<close>: KeyError with the missing labels when there are any.\<close>

definition drop_columns :: "'n frame \<Rightarrow> string list \<Rightarrow> error + 'n frame" where
  "drop_columns df cs =
     (case filter (\<lambda>c. c \<notin> set (labels df)) cs of
        [] \<Rightarrow> Inr (df\<lparr>columns := filter (\<lambda>(l, vs). l \<notin> set cs) (columns df)\<rparr>)
      | missing \<Rightarrow> Inl (KeyError missing))"

section \<open>Transformation\<close>

definition rename_map :: "(string \<times> string) list" where
  "rename_map =
    [(''npi'', ''npi''),
     (''ind_pac_id'', ''individual_pac_id''),
     (''ind_enrl_id'', ''individual_enrollment_id''),
     (''provider_last_name'', ''provider_last_name''),
     (''provider_first_name'', ''provider_first_name''),
     (''provider_middle_name'', ''provider_middle_name''),
     (''suff'', ''provider_suffix''),
     (''gndr'', ''gender''),
     (''cred'', ''credential''),
     (''med_sch'', ''medical_school_name''),
     (''grd_yr'', ''graduation_year''),
     (''pri_spec'', ''primary_specialty''),
     (''sec_spec_1'', ''secondary_specialty_1''),
     (''sec_spec_2'', ''secondary_specialty_2''),
     (''sec_spec_3'', ''secondary_specialty_3''),
     (''sec_spec_4'', ''secondary_specialty_4''),
     (''sec_spec_all'', ''secondary_specialties_all''),
     (''telehlth'', ''offers_telehealth''),
     (''facility_name'', ''facility_name''),
     (''org_pac_id'', ''organization_pac_id''),
     (''num_org_mem'', ''number_of_group_members''),
     (''adr_ln_1'', ''address_line_1''),
     (''adr_ln_2'', ''address_line_2''),
     (''ln_2_sprs'', ''line2_suppression_flag''),
     (''citytown'', ''city''),
     (''state'', ''state''),
     (''zip_code'', ''zip_code''),
     (''telephone_number'', ''telephone_number''),
     (''ind_assgn'', ''individual_accepts_medicare_assignment''),
     (''grp_assgn'', ''group_accepts_medicare_assignment''),
     (''adrs_id'', ''address_id''),
     (''record_number'', ''record_number''),
     (''bq_load_dttm'', ''bq_load_dttm'')]"

definition doctor_cols :: "string list" where
  "doctor_cols =
    [''npi'',
     ''individual_pac_id'',
     ''individual_enrollment_id'',
     ''provider_last_name'',
     ''provider_first_name'',
     ''provider_middle_name'',
     ''provider_suffix'',
     ''gender'',
     ''bq_load_dttm'']"

text \<open>Lines 122 and 123: \<open>df[c] = pd.to_numeric(df[c], errors="coerce")\<close>.\<close>

definition convert_column :: "'n library \<Rightarrow> 'n frame \<Rightarrow> string \<Rightarrow> error + 'n frame" where
  "convert_column lib df c =
     (case getitem df c of
        Inl e \<Rightarrow> Inl e
      | Inr sel \<Rightarrow>
          (case to_numeric lib sel of
             Inl e \<Rightarrow> Inl e
           | Inr vs \<Rightarrow> Inr (setitem df c vs)))"

text \<open>
  Lines 79-125: the frame \<open>df_raw\<close> before the split. \<open>lib\<close> is the library at hand and
  \<open>now\<close> the reading of the clock (\<open>pd.Timestamp.utcnow()\<close>), taken once and broadcast
  to every row.
\<close>

definition prepare :: "'n library \<Rightarrow> int \<Rightarrow> 'n raw_record list \<Rightarrow> error + 'n frame" where
  "prepare lib now raw_list =
     (let df_raw = replace (rename (DataFrame lib raw_list) rename_map) in
      case convert_column lib df_raw ''graduation_year'' of
        Inl e \<Rightarrow> Inl e
      | Inr df_raw \<Rightarrow>
          (case convert_column lib df_raw ''number_of_group_members'' of
             Inl e \<Rightarrow> Inl e
           | Inr df_raw \<Rightarrow>
               Inr (setitem df_raw ''bq_load_dttm''
                      (replicate (length (index df_raw)) (Time now)))))"

text \<open>Lines 127-142: the two tables, \<open>(df_doctors, df_specialty_and_locations)\<close>.\<close>

definition split_tables :: "'n frame \<Rightarrow> error + ('n frame \<times> 'n frame)" where
  "split_tables df_raw =
     (case getitem_list df_raw doctor_cols of
        Inl e \<Rightarrow> Inl e
      | Inr selected \<Rightarrow>
          (case drop_duplicates selected [''npi''] of
             Inl e \<Rightarrow> Inl e
           | Inr df_doctors \<Rightarrow>
               (case drop_columns df_raw
                       (filter (\<lambda>x. x \<notin> set [''npi'', ''bq_load_dttm'']) doctor_cols) of
                  Inl e \<Rightarrow> Inl e
                | Inr df_specialty_and_locations \<Rightarrow>
                    Inr (df_doctors, df_specialty_and_locations))))"

definition transform_data ::
  "'n library \<Rightarrow> int \<Rightarrow> 'n raw_record list \<Rightarrow> error + ('n frame \<times> 'n frame)" where
  "transform_data lib now raw_list =
     (case prepare lib now raw_list of
        Inl e \<Rightarrow> Inl e
      | Inr df_raw \<Rightarrow> split_tables df_raw)"

section \<open>Notions used in the statements\<close>

text \<open>The rows a response carries; a failed fetch carries none.\<close>

fun rows :: "'n response \<Rightarrow> 'n raw_record list" where
  "rows Failed = []"
| "rows (Page d) = d"

text \<open>A response after which the loop goes on: a page of at least \<open>CHUNK_SIZE\<close> rows.\<close>

definition full_page :: "'n response \<Rightarrow> bool" where
  "full_page r = (case r of Failed \<Rightarrow> False | Page d \<Rightarrow> CHUNK_SIZE \<le> length d)"

text \<open>The first \<open>n\<close> fetches of a state from an offset on, one page apart.\<close>

definition page_offsets :: "string \<Rightarrow> nat \<Rightarrow> nat \<Rightarrow> (string \<times> nat) list" where
  "page_offsets state offset n = map (\<lambda>i. (state, offset + i * CHUNK_SIZE)) [0..<n]"

text \<open>The rows that the filter of line 60 keeps from the given fetches, in their order.\<close>

definition kept :: "(string \<Rightarrow> nat \<Rightarrow> 'n response) \<Rightarrow> (string \<times> nat) list \<Rightarrow> 'n raw_record list" where
  "kept fetch fs = concat (map (\<lambda>(s, off). filter in_specialty_filter (rows (fetch s off))) fs)"

text \<open>
  A run of the loop of one state that takes \<open>n\<close> full pages and ends at the next
  response, with the result and the fetches it leaves.
\<close>

definition run_of ::
  "(string \<Rightarrow> nat \<Rightarrow> 'n response) \<Rightarrow> string \<Rightarrow> nat \<Rightarrow> 'n raw_record list \<Rightarrow> (string \<times> nat) list
     \<Rightarrow> 'n raw_record list \<times> (string \<times> nat) list \<Rightarrow> nat \<Rightarrow> bool" where
  "run_of fetch s off res fs out n \<longleftrightarrow>
     (\<forall>i<n. full_page (fetch s (off + i * CHUNK_SIZE))) \<and>
     \<not> full_page (fetch s (off + n * CHUNK_SIZE)) \<and>
     out = (res @ kept fetch (page_offsets s off (Suc n)), fs @ page_offsets s off (Suc n))"

definition last_page :: "(string \<Rightarrow> nat \<Rightarrow> 'n response) \<Rightarrow> string \<Rightarrow> nat \<Rightarrow> bool" where
  "last_page fetch s n \<longleftrightarrow>
     (\<forall>i<n. full_page (fetch s (i * CHUNK_SIZE))) \<and> \<not> full_page (fetch s (n * CHUNK_SIZE))"

text \<open>The fetches of a list of states, state \<open>ks ! j\<close> taking \<open>ns ! j\<close> full pages.\<close>

definition key_runs :: "string list \<Rightarrow> nat list \<Rightarrow> (string \<times> nat) list" where
  "key_runs ks ns = concat (map (\<lambda>(s, n). page_offsets s 0 (Suc n)) (zip ks ns))"

subsection \<open>Sample inputs\<close>

definition demo_row :: "int raw_record" where
  "demo_row = [(''npi'', JStr ''111''), (''pri_spec'', JStr ''ORTHOPEDIC SURGERY'')]"

definition demo_source :: "string \<Rightarrow> nat \<Rightarrow> int response" where
  "demo_source s off =
     (if off < 3000 then Page (replicate 1000 demo_row) else Page (replicate 400 demo_row))"

definition one_page_source :: "int raw_record list \<Rightarrow> string \<Rightarrow> nat \<Rightarrow> int response" where
  "one_page_source p s off = (if s = ''AL'' \<and> off = 0 then Page p else Page [])"

text \<open>
  A library for the sample runs: it reads decimal digits as numbers in every column,
  keeps numbers as they are and leaves a JSON null None.
\<close>

definition parse_digits :: "string \<Rightarrow> int option" where
  "parse_digits s =
     (if s \<noteq> [] \<and> list_all (\<lambda>c. c \<in> set ''0123456789'') s
      then Some (foldl (\<lambda>a c. 10 * a + (int (of_char c) - 48)) 0 s) else None)"

definition demo_lib :: "int library" where
  "demo_lib =
     \<lparr>null_is_nan = (\<lambda>col. False), stored = (\<lambda>col n. n),
      parse = (\<lambda>col. parse_digits), converted = (\<lambda>col n. n)\<rparr>"

text \<open>A record with every field that the transformation needs.\<close>

definition sample_record :: "string \<Rightarrow> string \<Rightarrow> string \<Rightarrow> int raw_record" where
  "sample_record npi grd_yr pri_spec =
    [(''npi'', JStr npi), (''ind_pac_id'', JStr ''42''), (''ind_enrl_id'', JStr ''I7''),
     (''provider_last_name'', JStr ''DOE''), (''provider_first_name'', JStr ''JO''),
     (''provider_middle_name'', JStr ''''), (''suff'', JStr ''''), (''gndr'', JStr ''F''),
     (''grd_yr'', JStr grd_yr), (''pri_spec'', JStr pri_spec), (''num_org_mem'', JStr ''12'')]"

definition sample_input :: "int raw_record list" where
  "sample_input =
    [sample_record ''111'' ''2005'' ''ORTHOPEDIC SURGERY'',
     sample_record ''111'' ''N/A'' ''DIAGNOSTIC RADIOLOGY'',
     sample_record ''222'' '''' ''ORTHOPEDIC SURGERY'']"

definition sample_doctors :: "int frame" where
  "sample_doctors =
    \<lparr>index = [0, 2],
     columns =
      [(''npi'', [Str ''111'', Str ''222'']),
       (''individual_pac_id'', [Str ''42'', Str ''42'']),
       (''individual_enrollment_id'', [Str ''I7'', Str ''I7'']),
       (''provider_last_name'', [Str ''DOE'', Str ''DOE'']),
       (''provider_first_name'', [Str ''JO'', Str ''JO'']),
       (''provider_middle_name'', [PyNone, PyNone]),
       (''provider_suffix'', [PyNone, PyNone]),
       (''gender'', [Str ''F'', Str ''F'']),
       (''bq_load_dttm'', [Time 7, Time 7])]\<rparr>"

definition sample_locations :: "int frame" where
  "sample_locations =
    \<lparr>index = [0, 1, 2],
     columns =
      [(''npi'', [Str ''111'', Str ''111'', Str ''222'']),
       (''graduation_year'', [Num 2005, NaN, NaN]),
       (''primary_specialty'',
        [Str ''ORTHOPEDIC SURGERY'', Str ''DIAGNOSTIC RADIOLOGY'', Str ''ORTHOPEDIC SURGERY'']),
       (''number_of_group_members'', [Num 12, Num 12, Num 12]),
       (''bq_load_dttm'', [Time 7, Time 7, Time 7])]\<rparr>"

text \<open>A record with a field that the rename map does not know.\<close>

definition extra_input :: "int raw_record list" where
  "extra_input = [sample_record ''111'' ''2005'' ''ORTHOPEDIC SURGERY'' @ [(''foo'', JStr ''bar'')]]"

definition extra_doctors :: "int frame" where
  "extra_doctors =
    \<lparr>index = [0],
     columns =
      [(''npi'', [Str ''111'']),
       (''individual_pac_id'', [Str ''42'']),
       (''individual_enrollment_id'', [Str ''I7'']),
       (''provider_last_name'', [Str ''DOE'']),
       (''provider_first_name'', [Str ''JO'']),
       (''provider_middle_name'', [PyNone]),
       (''provider_suffix'', [PyNone]),
       (''gender'', [Str ''F'']),
       (''bq_load_dttm'', [Time 7])]\<rparr>"

definition extra_locations :: "int frame" where
  "extra_locations =
    \<lparr>index = [0],
     columns =
      [(''npi'', [Str ''111'']),
       (''graduation_year'', [Num 2005]),
       (''primary_specialty'', [Str ''ORTHOPEDIC SURGERY'']),
       (''number_of_group_members'', [Num 12]),
       (''foo'', [Str ''bar'']),
       (''bq_load_dttm'', [Time 7])]\<rparr>"

text \<open>
  Two records of which the first has no field \<open>npi\<close> and the second the empty string
  for it.
\<close>

definition anonymous_input :: "int raw_record list" where
  "anonymous_input =
    [tl (sample_record ''000'' ''2005'' ''ORTHOPEDIC SURGERY''),
     sample_record '''' ''1999'' ''DIAGNOSTIC RADIOLOGY'']"

definition anonymous_doctors :: "int frame" where
  "anonymous_doctors =
    \<lparr>index = [0, 1],
     columns =
      [(''npi'', [NaN, PyNone]),
       (''individual_pac_id'', [Str ''42'', Str ''42'']),
       (''individual_enrollment_id'', [Str ''I7'', Str ''I7'']),
       (''provider_last_name'', [Str ''DOE'', Str ''DOE'']),
       (''provider_first_name'', [Str ''JO'', Str ''JO'']),
       (''provider_middle_name'', [PyNone, PyNone]),
       (''provider_suffix'', [PyNone, PyNone]),
       (''gender'', [Str ''F'', Str ''F'']),
       (''bq_load_dttm'', [Time 7, Time 7])]\<rparr>"

definition anonymous_locations :: "int frame" where
  "anonymous_locations =
    \<lparr>index = [0, 1],
     columns =
      [(''graduation_year'', [Num 2005, Num 1999]),
       (''primary_specialty'', [Str ''ORTHOPEDIC SURGERY'', Str ''DIAGNOSTIC RADIOLOGY'']),
       (''number_of_group_members'', [Num 12, Num 12]),
       (''npi'', [NaN, PyNone]),
       (''bq_load_dttm'', [Time 7, Time 7])]\<rparr>"



text \<open>
  The scenario of three rows on one page: two rows of the doctor 111 around a row of
  the doctor 222, whose specialty is not allowed.
\<close>

definition mixed_page :: "int raw_record list" where
  "mixed_page =
    [sample_record ''111'' ''2005'' ''ORTHOPEDIC SURGERY'',
     sample_record ''222'' ''1999'' ''CARDIOLOGY'',
     sample_record ''111'' ''N/A'' ''DIAGNOSTIC RADIOLOGY'']"

definition mixed_result :: "int raw_record list" where
  "mixed_result =
    [sample_record ''111'' ''2005'' ''ORTHOPEDIC SURGERY'',
     sample_record ''111'' ''N/A'' ''DIAGNOSTIC RADIOLOGY'']"

definition mixed_doctors :: "int frame" where
  "mixed_doctors =
    \<lparr>index = [0],
     columns =
      [(''npi'', [Str ''111'']),
       (''individual_pac_id'', [Str ''42'']),
       (''individual_enrollment_id'', [Str ''I7'']),
       (''provider_last_name'', [Str ''DOE'']),
       (''provider_first_name'', [Str ''JO'']),
       (''provider_middle_name'', [PyNone]),
       (''provider_suffix'', [PyNone]),
       (''gender'', [Str ''F'']),
       (''bq_load_dttm'', [Time 7])]\<rparr>"

definition mixed_locations :: "int frame" where
  "mixed_locations =
    \<lparr>index = [0, 1],
     columns =
      [(''npi'', [Str ''111'', Str ''111'']),
       (''graduation_year'', [Num 2005, NaN]),
       (''primary_specialty'', [Str ''ORTHOPEDIC SURGERY'', Str ''DIAGNOSTIC RADIOLOGY'']),
       (''number_of_group_members'', [Num 12, Num 12]),
       (''bq_load_dttm'', [Time 7, Time 7])]\<rparr>"

text \<open>
  A source whose first state fails on its second fetch, after one full page, and whose
  second state has one short page.
\<close>

definition failing_source :: "string \<Rightarrow> nat \<Rightarrow> int response" where
  "failing_source s off =
     (if s = ''AL'' then (if off = 0 then Page (replicate 1000 demo_row) else Failed)
      else Page [sample_record ''222'' ''1999'' ''DIAGNOSTIC RADIOLOGY''])"

text \<open>A record that has the graduation year under two names.\<close>

definition doubled_input :: "int raw_record list" where
  "doubled_input =
     [sample_record ''111'' ''2005'' ''ORTHOPEDIC SURGERY'' @ [(''graduation_year'', JStr ''2005'')]]"

subsection \<open>Notions for the tables\<close>

text \<open>The label under which a source field leaves the rename of line 119.\<close>

definition rename_label :: "string \<Rightarrow> string" where
  "rename_label c = (case map_of rename_map c of None \<Rightarrow> c | Some c' \<Rightarrow> c')"

text \<open>The labels that line 141 drops from the second table.\<close>

definition doctor_only :: "string list" where
  "doctor_only =
    [''individual_pac_id'', ''individual_enrollment_id'', ''provider_last_name'',
     ''provider_first_name'', ''provider_middle_name'', ''provider_suffix'', ''gender'']"

text \<open>
  The cell of the field \<open>c\<close> of the record \<open>r\<close> after line 119, and the column of the
  field \<open>c\<close> there.
\<close>

definition clean_cell :: "'n library \<Rightarrow> 'n raw_record list \<Rightarrow> string \<Rightarrow> 'n raw_record \<Rightarrow> 'n cell" where
  "clean_cell lib raw_list c r =
     replace_cell (cell_of lib (map (\<lambda>r. map_of r c) raw_list) (map_of r c))"

definition cleaned :: "'n library \<Rightarrow> 'n raw_record list \<Rightarrow> string \<Rightarrow> 'n cell list" where
  "cleaned lib raw_list c = map (clean_cell lib raw_list c) raw_list"

text \<open>
  The cell that the transformation puts out for the field \<open>c\<close> of the record \<open>r\<close>:
  the timestamp under the timestamp label, the cell as converted with its column under
  the two numeric labels, the cell of line 119 elsewhere.
\<close>

definition out_cell ::
  "'n library \<Rightarrow> int \<Rightarrow> 'n raw_record list \<Rightarrow> string \<Rightarrow> 'n raw_record \<Rightarrow> 'n cell" where
  "out_cell lib now raw_list c r =
     (if rename_label c = ''bq_load_dttm'' then Time now
      else if rename_label c = ''graduation_year'' \<or> rename_label c = ''number_of_group_members''
        then coerce lib (cleaned lib raw_list c) (clean_cell lib raw_list c r)
        else clean_cell lib raw_list c r)"

text \<open>The columns of \<open>df_raw\<close> at line 125, written out.\<close>

definition prepared_columns ::
  "'n library \<Rightarrow> int \<Rightarrow> 'n raw_record list \<Rightarrow> (string \<times> 'n cell list) list" where
  "prepared_columns lib now raw_list =
     map (\<lambda>c. (rename_label c, map (out_cell lib now raw_list c) raw_list)) (union_keys raw_list) @
     (if ''bq_load_dttm'' \<in> rename_label ` set (union_keys raw_list) then []
      else [(''bq_load_dttm'', replicate (length raw_list) (Time now))])"

text \<open>How many source fields of the input leave the rename under the label \<open>l\<close>.\<close>

definition label_count :: "'n raw_record list \<Rightarrow> string \<Rightarrow> nat" where
  "label_count raw_list l = length (filter (\<lambda>c. rename_label c = l) (union_keys raw_list))"

text \<open>The key of a record in the deduplication of line 139: its \<open>npi\<close> after line 119.\<close>

definition npi_key :: "'n library \<Rightarrow> 'n raw_record list \<Rightarrow> 'n raw_record \<Rightarrow> 'n cell" where
  "npi_key lib raw_list r = clean_cell lib raw_list ''npi'' r"

text \<open>The columns that line 139 selects, and whether their labels are all different.\<close>

definition selected_columns ::
  "'n library \<Rightarrow> int \<Rightarrow> 'n raw_record list \<Rightarrow> (string \<times> 'n cell list) list" where
  "selected_columns lib now raw_list =
     concat (map (\<lambda>c. filter (\<lambda>(l, vs). l = c) (prepared_columns lib now raw_list)) doctor_cols)"

text \<open>
  The keys that line 139 compares, and its mask: the records whose key no earlier
  record has.
\<close>

definition dedup_keys :: "'n library \<Rightarrow> int \<Rightarrow> 'n raw_record list \<Rightarrow> 'n cell list" where
  "dedup_keys lib now raw_list =
     (if distinct (map fst (selected_columns lib now raw_list))
      then map (npi_key lib raw_list) raw_list
      else map fold_null (map (npi_key lib raw_list) raw_list))"

definition keep_mask :: "'n library \<Rightarrow> int \<Rightarrow> 'n raw_record list \<Rightarrow> bool list" where
  "keep_mask lib now raw_list = map Not (duplicated [] (dedup_keys lib now raw_list))"

text \<open>The two tables, written out.\<close>

definition doctors_table :: "'n library \<Rightarrow> int \<Rightarrow> 'n raw_record list \<Rightarrow> 'n frame" where
  "doctors_table lib now raw_list =
     \<lparr>index = mask_rows (keep_mask lib now raw_list) [0..<length raw_list],
      columns = map (\<lambda>(l, vs). (l, mask_rows (keep_mask lib now raw_list) vs))
                  (selected_columns lib now raw_list)\<rparr>"

definition locations_table :: "'n library \<Rightarrow> int \<Rightarrow> 'n raw_record list \<Rightarrow> 'n frame" where
  "locations_table lib now raw_list =
     \<lparr>index = [0..<length raw_list],
      columns = filter (\<lambda>(l, vs). l \<notin> set doctor_only) (prepared_columns lib now raw_list)\<rparr>"

text \<open>The doctor labels, the timestamp apart, that the input puts on no column.\<close>

definition missing_labels :: "'n raw_record list \<Rightarrow> string list" where
  "missing_labels raw_list = filter (\<lambda>l. label_count raw_list l = 0) (butlast doctor_cols)"

text \<open>
  The inputs on which no step raises: after the rename each of the two numeric labels
  is on exactly one column, and every doctor label other than the timestamp is on a
  column.
\<close>

definition transformable :: "'n raw_record list \<Rightarrow> bool" where
  "transformable raw_list \<longleftrightarrow>
     label_count raw_list ''graduation_year'' = 1 \<and>
     label_count raw_list ''number_of_group_members'' = 1 \<and>
     list_all (\<lambda>l. 0 < label_count raw_list l) (butlast doctor_cols)"

text \<open>What the transformation does on an input, step by step in the order of the code.\<close>

definition transform_outcome ::
  "'n library \<Rightarrow> int \<Rightarrow> 'n raw_record list \<Rightarrow> error + ('n frame \<times> 'n frame)" where
  "transform_outcome lib now raw_list =
     (if label_count raw_list ''graduation_year'' = 0 then Inl (KeyError [''graduation_year''])
      else if 1 < label_count raw_list ''graduation_year'' then Inl TypeError
      else if label_count raw_list ''number_of_group_members'' = 0
        then Inl (KeyError [''number_of_group_members''])
      else if 1 < label_count raw_list ''number_of_group_members'' then Inl TypeError
      else if missing_labels raw_list \<noteq> [] then Inl (KeyError (missing_labels raw_list))
      else Inr (doctors_table lib now raw_list, locations_table lib now raw_list))"



section \<open>The extraction loop\<close>


lemma paginate_last:
  "\<not> full_page (fetch s off) \<Longrightarrow>
   paginate fetch s off res fs = Some (res @ kept fetch [(s, off)], fs @ [(s, off)])"
  apply (subst paginate.simps)
  apply (cases "fetch s off")
   apply (simp_all add: full_page_def kept_def)
  done

lemma paginate_full:
  "full_page (fetch s off) \<Longrightarrow>
   paginate fetch s off res fs =
     paginate fetch s (off + CHUNK_SIZE) (res @ kept fetch [(s, off)]) (fs @ [(s, off)])"
  apply (subst paginate.simps)
  apply (cases "fetch s off")
   apply (simp_all add: full_page_def kept_def)
  apply (auto simp: CHUNK_SIZE_def)
  done

lemma page_offsets_Suc_front:
  "page_offsets s off (Suc n) = (s, off) # page_offsets s (off + CHUNK_SIZE) n"
  unfolding page_offsets_def
  by (simp add: upt_conv_Cons map_Suc_upt[symmetric] del: upt_Suc)

lemma kept_append: "kept fetch (xs @ ys) = kept fetch xs @ kept fetch ys"
  by (simp add: kept_def)

lemma kept_Nil: "kept fetch [] = []"
  by (simp add: kept_def)

lemma kept_Cons: "kept fetch ((s, off) # ys) = filter in_specialty_filter (rows (fetch s off)) @ kept fetch ys"
  by (simp add: kept_def)

lemma paginate_run:
  "\<forall>i<n. full_page (fetch s (off + i * CHUNK_SIZE)) \<Longrightarrow>
   \<not> full_page (fetch s (off + n * CHUNK_SIZE)) \<Longrightarrow>
   paginate fetch s off res fs =
     Some (res @ kept fetch (page_offsets s off (Suc n)), fs @ page_offsets s off (Suc n))"
proof (induction n arbitrary: off res fs)
  case 0
  then show ?case by (simp add: paginate_last page_offsets_def)
next
  case (Suc n)
  have f0: "full_page (fetch s off)" using Suc.prems(1)[rule_format, of 0] by simp
  have rest: "\<forall>i<n. full_page (fetch s (off + CHUNK_SIZE + i * CHUNK_SIZE))"
  proof (intro allI impI)
    fix i assume "i < n"
    then have "full_page (fetch s (off + Suc i * CHUNK_SIZE))" using Suc.prems(1)[rule_format, of "Suc i"] by simp
    then show "full_page (fetch s (off + CHUNK_SIZE + i * CHUNK_SIZE))" by (simp add: add.assoc)
  qed
  have lst: "\<not> full_page (fetch s (off + CHUNK_SIZE + n * CHUNK_SIZE))"
    using Suc.prems(2) by (simp add: add.assoc)
  have "paginate fetch s off res fs =
     paginate fetch s (off + CHUNK_SIZE) (res @ kept fetch [(s, off)]) (fs @ [(s, off)])"
    using f0 by (rule paginate_full[of fetch s off])
  also have "\<dots> = Some ((res @ kept fetch [(s, off)]) @ kept fetch (page_offsets s (off + CHUNK_SIZE) (Suc n)),
      (fs @ [(s, off)]) @ page_offsets s (off + CHUNK_SIZE) (Suc n))"
    by (rule Suc.IH[OF rest lst])
  finally show ?case
    by (simp add: page_offsets_Suc_front[of s off "Suc n"] kept_Cons kept_Nil kept_append)
qed



lemma body_last:
  assumes "\<not> full_page r"
    and "(case r of
        Failed \<Rightarrow> Some (res, fs @ [(s, off)])
      | Page data \<Rightarrow>
          if data = [] then Some (res, fs @ [(s, off)])
          else if length data < CHUNK_SIZE
            then Some (res @ filter in_specialty_filter data, fs @ [(s, off)])
            else p (res @ filter in_specialty_filter data) (fs @ [(s, off)])) = Some out"
  shows "out = (res @ filter in_specialty_filter (rows r), fs @ [(s, off)])"
proof (cases r)
  case Failed
  then show ?thesis using assms(2) by simp
next
  case (Page data)
  then have "length data < CHUNK_SIZE" using assms(1) by (simp add: full_page_def)
  then show ?thesis using assms(2) Page by (cases "data = []") simp_all
qed

lemma body_full:
  assumes "full_page r"
    and "(case r of
        Failed \<Rightarrow> Some (res, fs @ [(s, off)])
      | Page data \<Rightarrow>
          if data = [] then Some (res, fs @ [(s, off)])
          else if length data < CHUNK_SIZE
            then Some (res @ filter in_specialty_filter data, fs @ [(s, off)])
            else p (res @ filter in_specialty_filter data) (fs @ [(s, off)])) = Some out"
  shows "p (res @ filter in_specialty_filter (rows r)) (fs @ [(s, off)]) = Some out"
proof (cases r)
  case Failed
  then show ?thesis using assms(1) by (simp add: full_page_def)
next
  case (Page data)
  then have len: "CHUNK_SIZE \<le> length data" using assms(1) by (simp add: full_page_def)
  then have "data \<noteq> []" by (auto simp: CHUNK_SIZE_def)
  then show ?thesis using assms(2) Page len by simp
qed



lemma offsets_shift:
  assumes f0: "full_page (fetch s off)"
    and rest: "\<forall>i<n. full_page (fetch s (off + CHUNK_SIZE + i * CHUNK_SIZE))"
  shows "\<forall>i<Suc n. full_page (fetch s (off + i * CHUNK_SIZE))"
proof (intro allI impI)
  fix i assume i: "i < Suc n"
  show "full_page (fetch s (off + i * CHUNK_SIZE))"
  proof (cases i)
    case 0 then show ?thesis using f0 by simp
  next
    case (Suc j)
    then have "j < n" using i by simp
    then have "full_page (fetch s (off + CHUNK_SIZE + j * CHUNK_SIZE))" using rest by simp
    then show ?thesis using Suc by (simp add: add.assoc)
  qed
qed

lemma run_of_0:
  assumes "\<not> full_page (fetch s off)"
    and "out = (res @ filter in_specialty_filter (rows (fetch s off)), fs @ [(s, off)])"
  shows "run_of fetch s off res fs out 0"
  using assms by (simp add: run_of_def page_offsets_def kept_def)

lemma run_of_Suc:
  assumes f0: "full_page (fetch s off)"
    and r: "run_of fetch s (off + CHUNK_SIZE) (res @ filter in_specialty_filter (rows (fetch s off)))
              (fs @ [(s, off)]) out n"
  shows "run_of fetch s off res fs out (Suc n)"
proof -
  have a: "\<forall>i<Suc n. full_page (fetch s (off + i * CHUNK_SIZE))"
    using f0 r unfolding run_of_def by (intro offsets_shift) simp_all
  have b: "\<not> full_page (fetch s (off + Suc n * CHUNK_SIZE))"
    using r unfolding run_of_def by (simp add: add.assoc)
  have c: "out = (res @ kept fetch (page_offsets s off (Suc (Suc n))), fs @ page_offsets s off (Suc (Suc n)))"
    using r unfolding run_of_def
    by (simp add: page_offsets_Suc_front[of s off "Suc n"] kept_Cons)
  show ?thesis unfolding run_of_def using a b c by (intro conjI)
qed

lemma paginate_Some:
  assumes ret: "paginate fetch s off res fs = Some out"
  shows "\<exists>n. run_of fetch s off res fs out n"
proof (rule paginate.raw_induct[where P = "\<lambda>fetch s off res fs out. \<exists>n. run_of fetch s off res fs out n"])
  show "paginate fetch s off res fs = Some out" by (rule ret)
next
  fix paginate' :: "(string \<Rightarrow> nat \<Rightarrow> 'a response) \<Rightarrow> string \<Rightarrow> nat \<Rightarrow> 'a raw_record list \<Rightarrow> (string \<times> nat) list
     \<Rightarrow> ('a raw_record list \<times> (string \<times> nat) list) option"
  fix fetch :: "string \<Rightarrow> nat \<Rightarrow> 'a response" and s off res fs out
  assume IH: "\<And>fetch s off res fs out. paginate' fetch s off res fs = Some out
                \<Longrightarrow> \<exists>n. run_of fetch s off res fs out n"
  assume body: "(case fetch s off of
        Failed \<Rightarrow> Some (res, fs @ [(s, off)])
      | Page data \<Rightarrow>
          if data = [] then Some (res, fs @ [(s, off)])
          else if length data < CHUNK_SIZE
            then Some (res @ filter in_specialty_filter data, fs @ [(s, off)])
            else paginate' fetch s (off + CHUNK_SIZE)
                   (res @ filter in_specialty_filter data) (fs @ [(s, off)])) = Some out"
  show "\<exists>n. run_of fetch s off res fs out n"
  proof (cases "full_page (fetch s off)")
    case False
    have "out = (res @ filter in_specialty_filter (rows (fetch s off)), fs @ [(s, off)])"
      using False body by (rule body_last[where p = "paginate' fetch s (off + CHUNK_SIZE)" and r = "fetch s off"])
    with False have "run_of fetch s off res fs out 0" by (rule run_of_0)
    then show ?thesis by (rule exI)
  next
    case True
    have step: "paginate' fetch s (off + CHUNK_SIZE) (res @ filter in_specialty_filter (rows (fetch s off))) (fs @ [(s, off)]) = Some out"
      using True body by (rule body_full[where p = "paginate' fetch s (off + CHUNK_SIZE)" and r = "fetch s off"])
    have "\<exists>n. run_of fetch s (off + CHUNK_SIZE) (res @ filter in_specialty_filter (rows (fetch s off))) (fs @ [(s, off)]) out n"
      using step by (rule IH)
    then obtain n where "run_of fetch s (off + CHUNK_SIZE) (res @ filter in_specialty_filter (rows (fetch s off))) (fs @ [(s, off)]) out n"
      by (rule exE)
    with True have "run_of fetch s off res fs out (Suc n)" by (rule run_of_Suc)
    then show ?thesis by (rule exI)
  qed
qed



lemma run_of_0_last_page:
  "run_of fetch s 0 res fs out n \<longleftrightarrow>
     last_page fetch s n \<and>
     out = (res @ kept fetch (page_offsets s 0 (Suc n)), fs @ page_offsets s 0 (Suc n))"
  by (simp add: run_of_def last_page_def)

lemma paginate_0_Some:
  assumes "paginate fetch s 0 res fs = Some out"
  shows "\<exists>n. last_page fetch s n \<and>
     out = (res @ kept fetch (page_offsets s 0 (Suc n)), fs @ page_offsets s 0 (Suc n))"
  using paginate_Some[OF assms] by (simp add: run_of_0_last_page)

lemma paginate_0_run:
  assumes "last_page fetch s n"
  shows "paginate fetch s 0 res fs =
     Some (res @ kept fetch (page_offsets s 0 (Suc n)), fs @ page_offsets s 0 (Suc n))"
proof -
  have a: "\<forall>i<n. full_page (fetch s (0 + i * CHUNK_SIZE))"
    using assms by (simp add: last_page_def)
  have b: "\<not> full_page (fetch s (0 + n * CHUNK_SIZE))"
    using assms by (simp add: last_page_def)
  show ?thesis using a b by (rule paginate_run)
qed

lemma key_runs_Cons:
  "key_runs (s # ks) (n # ns) = page_offsets s 0 (Suc n) @ key_runs ks ns"
  by (simp add: key_runs_def)

lemma key_runs_Nil: "key_runs [] ns = []"
  by (simp add: key_runs_def)

lemma extract_states_run:
  "list_all2 (last_page fetch) ks ns \<Longrightarrow>
   extract_states fetch ks res fs = Some (res @ kept fetch (key_runs ks ns), fs @ key_runs ks ns)"
proof (induction ks ns arbitrary: res fs rule: list_all2_induct)
  case Nil
  then show ?case by (simp add: key_runs_Nil kept_Nil)
next
  case (Cons s ks n ns)
  show ?case
    by (simp add: paginate_0_run[OF Cons.hyps(1)] Cons.IH key_runs_Cons kept_append)
qed

lemma extract_states_Some:
  "extract_states fetch ks res fs = Some out \<Longrightarrow>
   \<exists>ns. list_all2 (last_page fetch) ks ns \<and>
        out = (res @ kept fetch (key_runs ks ns), fs @ key_runs ks ns)"
proof (induction ks arbitrary: res fs)
  case Nil
  then show ?case by (simp add: key_runs_Nil kept_Nil)
next
  case (Cons s ks)
  from Cons.prems obtain mid where mid: "paginate fetch s 0 res fs = Some mid"
    and rest: "extract_states fetch ks (fst mid) (snd mid) = Some out"
    by (auto split: option.splits)
  from paginate_0_Some[OF mid] obtain n where n: "last_page fetch s n"
    "mid = (res @ kept fetch (page_offsets s 0 (Suc n)), fs @ page_offsets s 0 (Suc n))"
    by blast
  from Cons.IH[OF rest] obtain ns where ns: "list_all2 (last_page fetch) ks ns"
    "out = (fst mid @ kept fetch (key_runs ks ns), snd mid @ key_runs ks ns)"
    by blast
  have "list_all2 (last_page fetch) (s # ks) (n # ns)" using n(1) ns(1) by simp
  moreover have "out = (res @ kept fetch (key_runs (s # ks) (n # ns)), fs @ key_runs (s # ks) (n # ns))"
    using ns(2) n(2) by (simp add: key_runs_Cons kept_append)
  ultimately show ?case by blast
qed

lemma kept_allowed: "r \<in> set (kept fetch fs) \<Longrightarrow> in_specialty_filter r"
  by (auto simp: kept_def)


section \<open>The transformation, written out\<close>

lemma count_cases:
  "filter (\<lambda>(l, vs). l = c) cols = [] \<longleftrightarrow> c \<notin> fst ` set cols"
  by (induction cols) auto

lemma convert_column_missing:
  "c \<notin> set (labels df) \<Longrightarrow> convert_column lib df c = Inl (KeyError [c])"
proof -
  assume "c \<notin> set (labels df)"
  then have "map snd (filter (\<lambda>(l, vs). l = c) (columns df)) = []"
    by (simp add: count_cases labels_def)
  then show ?thesis by (simp add: convert_column_def getitem_def)
qed

lemma filter_label_single:
  "length (filter (\<lambda>(l, vs). l = c) cols) = 1 \<Longrightarrow>
   \<exists>vs. map snd (filter (\<lambda>(l, vs). l = c) cols) = [vs] \<and>
        map (\<lambda>(l, old). if l = c then (l, f vs) else (l, old)) cols =
        map (\<lambda>(l, old). (l, if l = c then f old else old)) cols"
proof (induction cols)
  case Nil
  then show ?case by simp
next
  case (Cons a cols)
  obtain l old where a: "a = (l, old)" by (cases a)
  show ?case
  proof (cases "l = c")
    case True
    then have none: "filter (\<lambda>(l, vs). l = c) cols = []" using Cons.prems a by simp
    then have "\<forall>x\<in>set cols. fst x \<noteq> c" by (auto simp: filter_empty_conv)
    then have "map (\<lambda>(l, old'). if l = c then (l, f old) else (l, old')) cols =
        map (\<lambda>(l, old). (l, if l = c then f old else old)) cols"
      by (intro map_cong) auto
    then show ?thesis using True a none by simp
  next
    case False
    then have "length (filter (\<lambda>(l, vs). l = c) cols) = 1" using Cons.prems a by simp
    from Cons.IH[OF this] show ?thesis using False a by auto
  qed
qed

lemma convert_column_single:
  assumes "length (filter (\<lambda>(l, vs). l = c) (columns df)) = 1"
  shows "convert_column lib df c =
     Inr (df\<lparr>columns := map (\<lambda>(l, old). (l, if l = c then map (coerce lib old) old else old))
                            (columns df)\<rparr>)"
proof -
  from filter_label_single[OF assms, of "\<lambda>vs. map (coerce lib vs) vs"] obtain vs where
    both: "map snd (filter (\<lambda>(l, vs). l = c) (columns df)) = [vs] \<and>
      map (\<lambda>(l, old). if l = c then (l, map (coerce lib vs) vs) else (l, old)) (columns df) =
        map (\<lambda>(l, old). (l, if l = c then map (coerce lib old) old else old)) (columns df)"
    by (rule exE)
  note vs = both[THEN conjunct1] and eq = both[THEN conjunct2]
  have "c \<in> set (labels df)"
    using vs count_cases[of c "columns df"] by (auto simp: labels_def)
  then show ?thesis
    using vs eq by (simp add: convert_column_def getitem_def setitem_def)
qed

lemma convert_column_repeated:
  assumes "1 < length (filter (\<lambda>(l, vs). l = c) (columns df))"
  shows "convert_column lib df c = Inl TypeError"
proof -
  obtain a b rest where "map snd (filter (\<lambda>(l, vs). l = c) (columns df)) = a # b # rest"
    using assms by (cases "filter (\<lambda>(l, vs). l = c) (columns df)" rule: list.exhaust; cases "tl (filter (\<lambda>(l, vs). l = c) (columns df))") auto
  then show ?thesis by (simp add: convert_column_def getitem_def)
qed

lemma renamed_frame:
  "replace (rename (DataFrame lib raw) rename_map) =
     \<lparr>index = [0..<length raw],
      columns = map (\<lambda>c. (rename_label c, cleaned lib raw c)) (union_keys raw)\<rparr>"
  by (simp add: replace_def rename_def DataFrame_def rename_label_def o_def cleaned_def
      clean_cell_def)

lemma filter_label_map:
  "filter (\<lambda>(l, vs). l = x) (map (\<lambda>c. (lab c, col c)) K) =
   map (\<lambda>c. (lab c, col c)) (filter (\<lambda>c. lab c = x) K)"
  by (induction K) auto

lemma convert_column_keyed:
  fixes col :: "string \<Rightarrow> 'n cell list"
  assumes "length (filter (\<lambda>c. lab c = x) K) = 1"
  shows "convert_column lib \<lparr>index = ix, columns = map (\<lambda>c. (lab c, col c)) K\<rparr> x =
     Inr \<lparr>index = ix,
          columns = map (\<lambda>c. (lab c, if lab c = x then map (coerce lib (col c)) (col c) else col c)) K\<rparr>"
proof -
  have one: "length (filter (\<lambda>(l, vs). l = x)
      (columns \<lparr>index = ix, columns = map (\<lambda>c. (lab c, col c)) K\<rparr>)) = 1"
    using assms by (simp add: filter_label_map)
  show ?thesis
    unfolding convert_column_single[OF one] by (simp add: o_def)
qed

lemma convert_column_keyed_missing:
  fixes col :: "string \<Rightarrow> 'n cell list"
  assumes "length (filter (\<lambda>c. lab c = x) K) = 0"
  shows "convert_column lib \<lparr>index = ix, columns = map (\<lambda>c. (lab c, col c)) K\<rparr> x =
     Inl (KeyError [x])"
proof -
  have "x \<notin> lab ` set K" using assms by (auto simp: filter_empty_conv)
  then have "x \<notin> set (labels \<lparr>index = ix, columns = map (\<lambda>c. (lab c, col c)) K\<rparr>)"
    by (auto simp: labels_def)
  then show ?thesis by (rule convert_column_missing)
qed

lemma convert_column_keyed_repeated:
  fixes col :: "string \<Rightarrow> 'n cell list"
  assumes "1 < length (filter (\<lambda>c. lab c = x) K)"
  shows "convert_column lib \<lparr>index = ix, columns = map (\<lambda>c. (lab c, col c)) K\<rparr> x =
     Inl TypeError"
proof -
  have "1 < length (filter (\<lambda>(l, vs). l = x)
      (columns \<lparr>index = ix, columns = map (\<lambda>c. (lab c, col c)) K\<rparr>))"
    using assms by (simp add: filter_label_map)
  then show ?thesis by (rule convert_column_repeated)
qed

lemma stamp_keyed:
  "setitem \<lparr>index = ix, columns = map (\<lambda>c. (lab c, col c)) K\<rparr> x vs =
     \<lparr>index = ix,
      columns = map (\<lambda>c. (lab c, if lab c = x then vs else col c)) K @
                (if x \<in> lab ` set K then [] else [(x, vs)])\<rparr>"
  by (auto simp: setitem_def labels_def o_def)

lemma out_column:
  "(if rename_label c = ''bq_load_dttm'' then replicate (length raw) (Time now)
    else if rename_label c = ''number_of_group_members''
      then map (coerce lib
                 (if rename_label c = ''graduation_year''
                  then map (coerce lib (cleaned lib raw c)) (cleaned lib raw c)
                  else cleaned lib raw c))
             (if rename_label c = ''graduation_year''
              then map (coerce lib (cleaned lib raw c)) (cleaned lib raw c)
              else cleaned lib raw c)
      else if rename_label c = ''graduation_year''
        then map (coerce lib (cleaned lib raw c)) (cleaned lib raw c)
        else cleaned lib raw c)
   = map (out_cell lib now raw c) raw"
proof (cases "rename_label c = ''bq_load_dttm''")
  case True
  then have "out_cell lib now raw c = (\<lambda>r. Time now)" by (simp add: out_cell_def fun_eq_iff)
  then show ?thesis using True by (simp add: map_replicate_const)
next
  case False
  then show ?thesis by (auto simp: out_cell_def o_def cleaned_def)
qed

lemma prepare_ok:
  assumes gy: "label_count raw ''graduation_year'' = 1"
    and gm: "label_count raw ''number_of_group_members'' = 1"
  shows "prepare lib now raw =
     Inr \<lparr>index = [0..<length raw], columns = prepared_columns lib now raw\<rparr>"
proof -
  let ?col0 = "cleaned lib raw"
  let ?col1 = "\<lambda>c. if rename_label c = ''graduation_year''
      then map (coerce lib (?col0 c)) (?col0 c) else ?col0 c"
  let ?col2 = "\<lambda>c. if rename_label c = ''number_of_group_members''
      then map (coerce lib (?col1 c)) (?col1 c) else ?col1 c"
  have 1: "length (filter (\<lambda>c. rename_label c = ''graduation_year'') (union_keys raw)) = 1"
    using gy by (simp add: label_count_def)
  have 2: "length (filter (\<lambda>c. rename_label c = ''number_of_group_members'') (union_keys raw)) = 1"
    using gm by (simp add: label_count_def)
  have s1: "convert_column lib (replace (rename (DataFrame lib raw) rename_map)) ''graduation_year'' =
      Inr \<lparr>index = [0..<length raw], columns = map (\<lambda>c. (rename_label c, ?col1 c)) (union_keys raw)\<rparr>"
    unfolding renamed_frame
    by (rule convert_column_keyed[OF 1, of lib "[0..<length raw]" ?col0])
  have s2: "convert_column lib \<lparr>index = [0..<length raw], columns = map (\<lambda>c. (rename_label c, ?col1 c)) (union_keys raw)\<rparr>
        ''number_of_group_members'' =
      Inr \<lparr>index = [0..<length raw], columns = map (\<lambda>c. (rename_label c, ?col2 c)) (union_keys raw)\<rparr>"
    by (rule convert_column_keyed[OF 2, of lib "[0..<length raw]" ?col1])
  have s3: "setitem \<lparr>index = [0..<length raw], columns = map (\<lambda>c. (rename_label c, ?col2 c)) (union_keys raw)\<rparr>
        ''bq_load_dttm'' (replicate (length raw) (Time now)) =
      \<lparr>index = [0..<length raw], columns = prepared_columns lib now raw\<rparr>"
    unfolding stamp_keyed prepared_columns_def
    by (simp add: out_column[symmetric])
  show ?thesis
    unfolding prepare_def Let_def s1 sum.case s2 using s3 by simp
qed

lemma prepare_no_year:
  assumes "label_count raw ''graduation_year'' = 0"
  shows "prepare lib now raw = Inl (KeyError [''graduation_year''])"
proof -
  have 1: "length (filter (\<lambda>c. rename_label c = ''graduation_year'') (union_keys raw)) = 0"
    using assms by (simp add: label_count_def)
  show ?thesis
    unfolding prepare_def Let_def renamed_frame convert_column_keyed_missing[OF 1] by simp
qed

lemma prepare_two_years:
  assumes "1 < label_count raw ''graduation_year''"
  shows "prepare lib now raw = Inl TypeError"
proof -
  have 1: "1 < length (filter (\<lambda>c. rename_label c = ''graduation_year'') (union_keys raw))"
    using assms by (simp add: label_count_def)
  show ?thesis
    unfolding prepare_def Let_def renamed_frame convert_column_keyed_repeated[OF 1] by simp
qed

lemma prepare_no_members:
  assumes gy: "label_count raw ''graduation_year'' = 1"
    and gm: "label_count raw ''number_of_group_members'' = 0"
  shows "prepare lib now raw = Inl (KeyError [''number_of_group_members''])"
proof -
  have 1: "length (filter (\<lambda>c. rename_label c = ''graduation_year'') (union_keys raw)) = 1"
    using gy by (simp add: label_count_def)
  have 2: "length (filter (\<lambda>c. rename_label c = ''number_of_group_members'') (union_keys raw)) = 0"
    using gm by (simp add: label_count_def)
  show ?thesis
    unfolding prepare_def Let_def renamed_frame convert_column_keyed[OF 1] sum.case
      convert_column_keyed_missing[OF 2] by simp
qed

lemma prepare_two_members:
  assumes gy: "label_count raw ''graduation_year'' = 1"
    and gm: "1 < label_count raw ''number_of_group_members''"
  shows "prepare lib now raw = Inl TypeError"
proof -
  have 1: "length (filter (\<lambda>c. rename_label c = ''graduation_year'') (union_keys raw)) = 1"
    using gy by (simp add: label_count_def)
  have 2: "1 < length (filter (\<lambda>c. rename_label c = ''number_of_group_members'') (union_keys raw))"
    using gm by (simp add: label_count_def)
  show ?thesis
    unfolding prepare_def Let_def renamed_frame convert_column_keyed[OF 1] sum.case
      convert_column_keyed_repeated[OF 2] by simp
qed

lemma rename_label_npi: "rename_label c = ''npi'' \<longleftrightarrow> c = ''npi''"
  by (simp add: rename_label_def rename_map_def)


lemma rename_label_unknown: "map_of rename_map c = None \<Longrightarrow> rename_label c = c"
  by (simp add: rename_label_def)

lemma distinct_union_keys: "distinct (union_keys raw)"
  by (simp add: union_keys_def)

lemma set_union_keys: "set (union_keys raw) = (\<Union>r\<in>set raw. fst ` set r)"
  by (simp add: union_keys_def)

lemma filter_eq_distinct:
  "distinct K \<Longrightarrow> filter (\<lambda>c. c = x) K = (if x \<in> set K then [x] else [])"
  by (induction K) auto

lemma doctor_only_eq:
  "filter (\<lambda>x. x \<notin> set [''npi'', ''bq_load_dttm'']) doctor_cols = doctor_only"
  by (simp add: doctor_cols_def doctor_only_def)

lemma filter_none_iff: "filter (\<lambda>c. c \<notin> set L) cs = [] \<longleftrightarrow> set cs \<subseteq> set L"
  by (auto simp: filter_empty_conv)

lemma filter_label_twice:
  "filter (\<lambda>(l, vs). l = x) (filter (\<lambda>(l, vs). l = c) cols) =
     (if c = x then filter (\<lambda>(l, vs). l = x) cols else [])"
  by (induction cols) auto

lemma out_cell_npi: "out_cell lib now raw ''npi'' r = npi_key lib raw r"
  by (simp add: out_cell_def npi_key_def rename_label_npi[of "''npi''", simplified])

lemma selected_set:
  "set (concat (map (\<lambda>c. filter (\<lambda>(l, vs). l = c) cols) cs)) = {x \<in> set cols. fst x \<in> set cs}"
  by (induction cs) auto

lemma duplicated_map_inj:
  "inj f \<Longrightarrow> duplicated (map f seen) (map f ks) = duplicated seen ks"
proof (induction ks arbitrary: seen)
  case Nil
  then show ?case by simp
next
  case (Cons k ks)
  have "(f k \<in> f ` set seen) = (k \<in> set seen)"
    using Cons.prems by (auto dest: injD)
  then show ?case using Cons.IH[OF Cons.prems, of "k # seen"] by simp
qed

lemma split_tables_ok:
  assumes "set doctor_cols \<subseteq> set (labels df)"
  shows "split_tables df =
     (let sel = concat (map (\<lambda>c. filter (\<lambda>(l, vs). l = c) (columns df)) doctor_cols);
          keys = (if distinct (map fst sel) then key_rows (df\<lparr>columns := sel\<rparr>) [''npi'']
                  else map (map fold_null) (key_rows (df\<lparr>columns := sel\<rparr>) [''npi'']));
          keep = map Not (duplicated [] keys)
      in Inr (\<lparr>index = mask_rows keep (index df),
               columns = map (\<lambda>(l, vs). (l, mask_rows keep vs)) sel\<rparr>,
              df\<lparr>columns := filter (\<lambda>(l, vs). l \<notin> set doctor_only) (columns df)\<rparr>))"
proof -
  let ?sel = "concat (map (\<lambda>c. filter (\<lambda>(l, vs). l = c) (columns df)) doctor_cols)"
  have a: "filter (\<lambda>c. c \<notin> set (labels df)) doctor_cols = []"
    using assms by (simp add: filter_none_iff)
  have "''npi'' \<in> set doctor_cols" by (simp add: doctor_cols_def)
  then have "''npi'' \<in> set (labels df)" using assms by blast
  then obtain vs where "(''npi'', vs) \<in> set (columns df)" by (auto simp: labels_def)
  then have "(''npi'', vs) \<in> set ?sel"
    using \<open>''npi'' \<in> set doctor_cols\<close> by (simp add: selected_set)
  then have "fst (''npi'', vs) \<in> fst ` set ?sel" by (rule imageI)
  then have "''npi'' \<in> set (labels (df\<lparr>columns := ?sel\<rparr>))"
    by (simp add: labels_def)
  then have b: "filter (\<lambda>c. c \<notin> set (labels (df\<lparr>columns := ?sel\<rparr>))) [''npi''] = []"
    by simp
  have "set doctor_only \<subseteq> set doctor_cols"
    by (simp add: doctor_cols_def doctor_only_def)
  then have "set doctor_only \<subseteq> set (labels df)"
    using assms by blast
  then have c: "filter (\<lambda>c. c \<notin> set (labels df)) doctor_only = []"
    by (simp add: filter_none_iff)
  show ?thesis
    unfolding split_tables_def getitem_list_def a list.case sum.case
      drop_duplicates_def b drop_columns_def doctor_only_eq c
    by (simp add: Let_def labels_def)
qed

lemma split_tables_missing:
  assumes "filter (\<lambda>c. c \<notin> set (labels df)) doctor_cols \<noteq> []"
  shows "split_tables df = Inl (KeyError (filter (\<lambda>c. c \<notin> set (labels df)) doctor_cols))"
proof -
  obtain c cs where "filter (\<lambda>c. c \<notin> set (labels df)) doctor_cols = c # cs"
    using assms by (cases "filter (\<lambda>c. c \<notin> set (labels df)) doctor_cols") auto
  then show ?thesis
    by (simp add: split_tables_def getitem_list_def)
qed

lemma label_count_pos: "0 < label_count raw l \<longleftrightarrow> l \<in> rename_label ` set (union_keys raw)"
  by (auto simp: label_count_def filter_empty_conv)

lemma label_count_zero: "label_count raw l = 0 \<longleftrightarrow> l \<notin> rename_label ` set (union_keys raw)"
  using label_count_pos[of raw l] by auto

lemma labels_prepared:
  "set (labels \<lparr>index = ix, columns = prepared_columns lib now raw\<rparr>) =
     insert ''bq_load_dttm'' (rename_label ` set (union_keys raw))"
  by (auto simp: labels_def prepared_columns_def)

lemma missing_prepared:
  "filter (\<lambda>c. c \<notin> set (labels \<lparr>index = ix, columns = prepared_columns lib now raw\<rparr>)) doctor_cols =
     missing_labels raw"
proof -
  have split: "doctor_cols = butlast doctor_cols @ [''bq_load_dttm'']"
    by (simp add: doctor_cols_def)
  have "filter (\<lambda>c. c \<notin> insert ''bq_load_dttm'' (rename_label ` set (union_keys raw)))
      (butlast doctor_cols) =
      filter (\<lambda>l. label_count raw l = 0) (butlast doctor_cols)"
    by (rule filter_cong) (auto simp: label_count_zero doctor_cols_def)
  then have "filter (\<lambda>c. c \<notin> insert ''bq_load_dttm'' (rename_label ` set (union_keys raw)))
      (butlast doctor_cols @ [''bq_load_dttm'']) = missing_labels raw"
    by (simp add: missing_labels_def)
  then show ?thesis unfolding labels_prepared using split by simp
qed

lemma transformable_missing:
  "transformable raw \<longleftrightarrow>
     label_count raw ''graduation_year'' = 1 \<and>
     label_count raw ''number_of_group_members'' = 1 \<and> missing_labels raw = []"
  by (auto simp: transformable_def missing_labels_def list_all_iff filter_empty_conv)

lemma transformable_labels:
  assumes "transformable raw"
  shows "set doctor_cols \<subseteq> set (labels \<lparr>index = ix, columns = prepared_columns lib now raw\<rparr>)"
proof -
  have "missing_labels raw = []" using assms by (simp add: transformable_missing)
  then show ?thesis
    using missing_prepared[of ix lib now raw] by (simp add: filter_none_iff)
qed

lemma npi_column:
  assumes "''npi'' \<in> rename_label ` set (union_keys raw)"
  shows "filter (\<lambda>(l, vs). l = ''npi'') (prepared_columns lib now raw) =
     [(''npi'', map (npi_key lib raw) raw)]"
proof -
  from assms obtain x where x: "x \<in> set (union_keys raw)" "rename_label x = ''npi''"
    by (auto simp: image_iff)
  have in_keys: "''npi'' \<in> set (union_keys raw)"
    using x by (simp add: rename_label_npi)
  have "filter (\<lambda>c. rename_label c = ''npi'') (union_keys raw) = filter (\<lambda>c. c = ''npi'') (union_keys raw)"
    by (simp add: rename_label_npi)
  also have "\<dots> = [''npi'']"
    using in_keys by (simp add: filter_eq_distinct distinct_union_keys)
  finally have k: "filter (\<lambda>c. rename_label c = ''npi'') (union_keys raw) = [''npi'']" .
  have r: "rename_label ''npi'' = ''npi''" by (simp add: rename_label_npi)
  have "out_cell lib now raw ''npi'' = npi_key lib raw" by (simp add: fun_eq_iff out_cell_npi)
  then show ?thesis
    unfolding prepared_columns_def filter_append filter_label_map k
    by (simp add: r)
qed

lemma selected_filter:
  "filter (\<lambda>(l, vs). l = x) (concat (map (\<lambda>c. filter (\<lambda>(l, vs). l = c) cols) cs)) =
     concat (map (\<lambda>c. if c = x then filter (\<lambda>(l, vs). l = x) cols else []) cs)"
  by (induction cs) (simp_all add: filter_label_twice del: filter_filter)

lemma selected_npi:
  "filter (\<lambda>(l, vs). l \<in> set [''npi''])
     (concat (map (\<lambda>c. filter (\<lambda>(l, vs). l = c) cols) doctor_cols)) =
   filter (\<lambda>(l, vs). l = ''npi'') cols"
proof -
  have p: "(\<lambda>(l, vs). l \<in> set [''npi'']) = (\<lambda>(l :: string, vs :: 'a). l = ''npi'')"
    by (simp add: fun_eq_iff)
  show ?thesis
    unfolding p selected_filter by (simp add: doctor_cols_def)
qed

lemma map_nth_fun: "map (\<lambda>i. g (xs ! i)) [0..<length xs] = map g xs"
  by (rule nth_equalityI) simp_all

lemma key_rows_selected:
  assumes "''npi'' \<in> rename_label ` set (union_keys raw)"
  shows "key_rows \<lparr>index = [0..<length raw], columns = selected_columns lib now raw\<rparr>
           [''npi''] = map (\<lambda>k. [k]) (map (npi_key lib raw) raw)"
proof -
  have "map (\<lambda>i. [map (npi_key lib raw) raw ! i]) [0..<length raw] =
      map (\<lambda>k. [k]) (map (npi_key lib raw) raw)"
    using map_nth_fun[of "\<lambda>k. [k]" "map (npi_key lib raw) raw"] by simp
  then show ?thesis
    unfolding key_rows_def frame.simps selected_columns_def selected_npi npi_column[OF assms]
    by simp
qed

lemma transformable_npi:
  assumes "transformable raw"
  shows "''npi'' \<in> rename_label ` set (union_keys raw)"
proof -
  have "''npi'' \<in> set (butlast doctor_cols)" by (simp add: doctor_cols_def)
  then show ?thesis
    using assms by (simp add: transformable_def list_all_iff label_count_pos)
qed

lemma keep_mask_keys:
  "map Not (duplicated []
      (if distinct (map fst (selected_columns lib now raw))
       then map (\<lambda>k. [k]) (map (npi_key lib raw) raw)
       else map (map fold_null) (map (\<lambda>k. [k]) (map (npi_key lib raw) raw)))) =
   keep_mask lib now raw"
proof -
  have inj: "inj (\<lambda>k :: 'a cell. [k])" by (simp add: inj_def)
  have fold: "map (map fold_null) (map (\<lambda>k. [k]) (map (npi_key lib raw) raw)) =
      map (\<lambda>k. [k]) (map fold_null (map (npi_key lib raw) raw))"
    by simp
  have "duplicated []
      (if distinct (map fst (selected_columns lib now raw))
       then map (\<lambda>k. [k]) (map (npi_key lib raw) raw)
       else map (map fold_null) (map (\<lambda>k. [k]) (map (npi_key lib raw) raw))) =
      duplicated [] (dedup_keys lib now raw)"
    unfolding fold dedup_keys_def
    using duplicated_map_inj[OF inj, of "[]" "map (npi_key lib raw) raw"]
      duplicated_map_inj[OF inj, of "[]" "map fold_null (map (npi_key lib raw) raw)"]
    by (cases "distinct (map fst (selected_columns lib now raw))") simp_all
  then show ?thesis by (simp only: keep_mask_def)
qed

lemma transform_ok:
  assumes "transformable raw"
  shows "transform_data lib now raw = Inr (doctors_table lib now raw, locations_table lib now raw)"
proof -
  have gy: "label_count raw ''graduation_year'' = 1"
    and gm: "label_count raw ''number_of_group_members'' = 1"
    using assms by (simp_all add: transformable_def)
  note npi = transformable_npi[OF assms]
  show ?thesis
    unfolding transform_data_def prepare_ok[OF gy gm] sum.case
      split_tables_ok[OF transformable_labels[OF assms]] Let_def frame.simps
      selected_columns_def[symmetric] key_rows_selected[OF npi] keep_mask_keys
    by (simp add: doctors_table_def locations_table_def)
qed

lemma transform_result: "transform_data lib now raw = transform_outcome lib now raw"
proof -
  consider (a) "label_count raw ''graduation_year'' = 0"
    | (b) "1 < label_count raw ''graduation_year''"
    | (c) "label_count raw ''graduation_year'' = 1" "label_count raw ''number_of_group_members'' = 0"
    | (d) "label_count raw ''graduation_year'' = 1" "1 < label_count raw ''number_of_group_members''"
    | (e) "label_count raw ''graduation_year'' = 1" "label_count raw ''number_of_group_members'' = 1"
      "missing_labels raw \<noteq> []"
    | (f) "label_count raw ''graduation_year'' = 1" "label_count raw ''number_of_group_members'' = 1"
      "missing_labels raw = []"
    by arith
  then show ?thesis
  proof cases
    case a
    then show ?thesis by (simp add: transform_data_def prepare_no_year transform_outcome_def)
  next
    case b
    then show ?thesis by (simp add: transform_data_def prepare_two_years transform_outcome_def)
  next
    case c
    then show ?thesis by (simp add: transform_data_def prepare_no_members transform_outcome_def)
  next
    case d
    then show ?thesis by (simp add: transform_data_def prepare_two_members transform_outcome_def)
  next
    case e
    have "filter (\<lambda>c. c \<notin> set (labels \<lparr>index = [0..<length raw],
        columns = prepared_columns lib now raw\<rparr>)) doctor_cols \<noteq> []"
      using e(3) by (simp add: missing_prepared)
    from split_tables_missing[OF this]
    have "split_tables \<lparr>index = [0..<length raw], columns = prepared_columns lib now raw\<rparr> =
        Inl (KeyError (missing_labels raw))"
      by (simp only: missing_prepared)
    then show ?thesis
      using e by (simp add: transform_data_def prepare_ok transform_outcome_def)
  next
    case f
    then have "transformable raw" by (simp add: transformable_missing)
    from transform_ok[OF this, of lib now] show ?thesis
      using f by (simp add: transform_outcome_def)
  qed
qed

lemma transform_Inr:
  assumes "transform_data lib now raw = Inr (d, sl)"
  shows "transformable raw \<and> d = doctors_table lib now raw \<and> sl = locations_table lib now raw"
proof -
  have o: "transform_outcome lib now raw = Inr (d, sl)"
    using assms by (simp only: transform_result)
  then have "label_count raw ''graduation_year'' = 1 \<and>
      label_count raw ''number_of_group_members'' = 1 \<and> missing_labels raw = []"
    unfolding transform_outcome_def by (auto split: if_splits)
  then have t: "transformable raw" by (simp add: transformable_missing)
  from transform_ok[OF t, of lib now] assms show ?thesis using t by simp
qed

lemma transform_not_transformable:
  assumes "\<not> transformable raw"
  shows "\<exists>e. transform_data lib now raw = Inl e"
proof (cases "transform_data lib now raw")
  case (Inl e)
  then show ?thesis by blast
next
  case (Inr out)
  then obtain d sl where "transform_data lib now raw = Inr (d, sl)" by (cases out) simp
  from transform_Inr[OF this] assms show ?thesis by simp
qed

lemma mask_rows_Nil: "mask_rows [] xs = []"
  by (simp add: mask_rows_def)

lemma mask_rows_Nil2: "mask_rows m [] = []"
  by (simp add: mask_rows_def)

lemma mask_rows_Cons:
  "mask_rows (b # m) (x # xs) = (if b then x # mask_rows m xs else mask_rows m xs)"
  by (simp add: mask_rows_def)

lemma mask_rows_map: "mask_rows m (map f xs) = map f (mask_rows m xs)"
proof (induction m arbitrary: xs)
  case Nil
  then show ?case by (simp add: mask_rows_Nil)
next
  case (Cons b m)
  then show ?case by (cases xs) (simp_all add: mask_rows_Nil2 mask_rows_Cons)
qed

lemma mask_rows_nth: "mask_rows m xs = map ((!) xs) (mask_rows m [0..<length xs])"
proof -
  have "mask_rows m xs = mask_rows m (map ((!) xs) [0..<length xs])" by (simp add: map_nth)
  then show ?thesis by (simp only: mask_rows_map)
qed

lemma set_mask_rows: "set (mask_rows m xs) \<subseteq> set xs"
  unfolding mask_rows_def by (auto dest: set_zip_rightD)

lemma length_duplicated: "length (duplicated seen ks) = length ks"
  by (induction ks arbitrary: seen) simp_all

lemma set_first_seen:
  "set (mask_rows (map Not (duplicated seen ks)) ks) = set ks - set seen"
  by (induction ks arbitrary: seen) (auto simp: mask_rows_Nil mask_rows_Cons)

lemma distinct_first_seen:
  "distinct (mask_rows (map Not (duplicated seen ks)) ks)"
  by (induction ks arbitrary: seen) (auto simp: mask_rows_Nil mask_rows_Cons set_first_seen)

lemma first_positions_from:
  "mask_rows (map Not (duplicated seen ks)) [k..<k + length ks] =
     filter (\<lambda>i. ks ! (i - k) \<notin> set seen \<union> set (take (i - k) ks)) [k..<k + length ks]"
proof (induction ks arbitrary: seen k)
  case Nil
  then show ?case by (simp add: mask_rows_Nil)
next
  case (Cons a ks)
  have "[k..<k + length (a # ks)] = k # [Suc k..<k + length (a # ks)]"
    by (rule upt_conv_Cons) simp
  moreover have "k + length (a # ks) = Suc k + length ks" by simp
  ultimately have upt: "[k..<k + length (a # ks)] = k # [Suc k..<Suc k + length ks]"
    by (simp only:)
  have rest: "filter (\<lambda>i. (a # ks) ! (i - k) \<notin> set seen \<union> set (take (i - k) (a # ks)))
        [Suc k..<Suc k + length ks] =
      filter (\<lambda>i. ks ! (i - Suc k) \<notin> set (a # seen) \<union> set (take (i - Suc k) ks))
        [Suc k..<Suc k + length ks]"
  proof (rule filter_cong[OF refl])
    fix i assume "i \<in> set [Suc k..<Suc k + length ks]"
    then have "i - k = Suc (i - Suc k)" by auto
    then show "((a # ks) ! (i - k) \<notin> set seen \<union> set (take (i - k) (a # ks))) =
        (ks ! (i - Suc k) \<notin> set (a # seen) \<union> set (take (i - Suc k) ks))"
      by auto
  qed
  show ?case
    unfolding upt duplicated.simps list.map mask_rows_Cons Cons.IH filter.simps rest
    by simp
qed

lemma first_positions_keys:
  "mask_rows (map Not (duplicated [] ks)) [0..<length ks] =
     filter (\<lambda>i. ks ! i \<notin> set (take i ks)) [0..<length ks]"
  using first_positions_from[of "[]" ks 0] by simp

section \<open>Pagination\<close>


lemma full_page_Page: "full_page (Page p) \<longleftrightarrow> CHUNK_SIZE \<le> length p"
  by (simp add: full_page_def)

lemma full_page_Failed: "\<not> full_page Failed"
  by (simp add: full_page_def)

lemma page_offsets_4:
  "page_offsets s 0 4 = [(s, 0), (s, 1000), (s, 2000), (s, 3000)]"
proof -
  have "[0..<4] = [0, 1, 2, Suc 2]" by (simp add: eval_nat_numeral)
  then show ?thesis by (simp add: page_offsets_def CHUNK_SIZE_def)
qed

text \<open>
  Claim C7. A state whose source answers the offsets 0, 1000, 2000 and 3000 with pages
  of 1000, 1000, 1000 and 400 rows is fetched exactly four times, at these offsets in
  this order, and the loop returns after the page of 400 rows. In general a page that
  is not empty and shorter than \<open>CHUNK_SIZE\<close> ends the loop of its state.
\<close>

theorem pagination_1000_1000_1000_400:
  assumes "fetch s 0 = Page p0" and "length p0 = 1000"
    and "fetch s 1000 = Page p1" and "length p1 = 1000"
    and "fetch s 2000 = Page p2" and "length p2 = 1000"
    and "fetch s 3000 = Page p3" and "length p3 = 400"
  shows "extract_states fetch [s] [] [] =
           Some (filter in_specialty_filter p0 @ filter in_specialty_filter p1 @
                 filter in_specialty_filter p2 @ filter in_specialty_filter p3,
                 [(s, 0), (s, 1000), (s, 2000), (s, 3000)]) \<and>
         (\<forall>off p res fs. fetch s off = Page p \<and> p \<noteq> [] \<and> length p < CHUNK_SIZE \<longrightarrow>
            paginate fetch s off res fs =
              Some (res @ filter in_specialty_filter p, fs @ [(s, off)]))"
proof (rule conjI)
  have "\<forall>i<3. full_page (fetch s (i * CHUNK_SIZE))"
  proof (intro allI impI)
    fix i :: nat assume "i < 3"
    then have "i = 0 \<or> i = 1 \<or> i = 2" by arith
    then show "full_page (fetch s (i * CHUNK_SIZE))"
      using assms by (auto simp: CHUNK_SIZE_def full_page_def)
  qed
  moreover have "\<not> full_page (fetch s (3 * CHUNK_SIZE))"
    using assms by (simp add: CHUNK_SIZE_def full_page_def)
  ultimately have lp: "last_page fetch s 3" by (simp add: last_page_def)
  have "paginate fetch s 0 [] [] =
     Some ([] @ kept fetch (page_offsets s 0 (Suc 3)), [] @ page_offsets s 0 (Suc 3))"
    using lp by (rule paginate_0_run)
  then show "extract_states fetch [s] [] [] =
           Some (filter in_specialty_filter p0 @ filter in_specialty_filter p1 @
                 filter in_specialty_filter p2 @ filter in_specialty_filter p3,
                 [(s, 0), (s, 1000), (s, 2000), (s, 3000)])"
    using assms by (simp add: page_offsets_4 kept_def)
next
  show "\<forall>off p res fs. fetch s off = Page p \<and> p \<noteq> [] \<and> length p < CHUNK_SIZE \<longrightarrow>
            paginate fetch s off res fs =
              Some (res @ filter in_specialty_filter p, fs @ [(s, off)])"
  proof (intro allI impI)
    fix off p res fs
    assume h: "fetch s off = Page p \<and> p \<noteq> [] \<and> length p < CHUNK_SIZE"
    then have "\<not> full_page (fetch s off)" by (simp add: full_page_def)
    then have "paginate fetch s off res fs = Some (res @ kept fetch [(s, off)], fs @ [(s, off)])"
      by (rule paginate_last)
    then show "paginate fetch s off res fs =
              Some (res @ filter in_specialty_filter p, fs @ [(s, off)])"
      using h by (simp add: kept_def)
  qed
qed

lemma demo_row_allowed: "in_specialty_filter demo_row"
  by (simp add: in_specialty_filter_def demo_row_def dict_get_def SPECIALTY_FILTER_def)

theorem pagination_1000_1000_1000_400_witness:
  "extract_states demo_source [''AL''] [] [] =
     Some (replicate 1000 demo_row @ replicate 1000 demo_row @ replicate 1000 demo_row @ replicate 400 demo_row,
           [(''AL'', 0), (''AL'', 1000), (''AL'', 2000), (''AL'', 3000)])"
  using pagination_1000_1000_1000_400 [of demo_source "''AL''"
      "replicate 1000 demo_row" "replicate 1000 demo_row" "replicate 1000 demo_row" "replicate 400 demo_row"]
  by (simp add: demo_source_def demo_row_allowed)

section \<open>Records without a specialty\<close>


lemma extract_cms_data_Some:
  assumes "extract_cms_data fetch = Some (res, fs)"
  shows "\<exists>ns. list_all2 (last_page fetch) STATES_LIST ns \<and>
          fs = key_runs STATES_LIST ns \<and> res = kept fetch fs"
  using extract_states_Some[of fetch STATES_LIST "[]" "[]" "(res, fs)"] assms
  by (auto simp: extract_cms_data_def)

lemma extract_result_allowed:
  assumes "extract_cms_data fetch = Some (res, fs)" and "r \<in> set res"
  shows "in_specialty_filter r"
proof -
  from extract_cms_data_Some[OF assms(1)] have "res = kept fetch fs" by blast
  with assms(2) show ?thesis by (simp add: kept_allowed)
qed

text \<open>
  Claim C10. A record without the key \<open>pri_spec\<close>, or with null under it, fails the test
  of line 60: the filter drops it from any page, and it is in no result of the
  extraction.
\<close>

theorem missing_specialty_never_extracted:
  assumes "map_of x ''pri_spec'' = None \<or> map_of x ''pri_spec'' = Some JNull"
  shows "\<not> in_specialty_filter x \<and>
         filter in_specialty_filter (xs @ x # ys) =
           filter in_specialty_filter xs @ filter in_specialty_filter ys \<and>
         (\<forall>fetch res fs. extract_cms_data fetch = Some (res, fs) \<longrightarrow> x \<notin> set res)"
proof -
  have no: "\<not> in_specialty_filter x"
    using assms by (auto simp: in_specialty_filter_def dict_get_def)
  have "\<forall>fetch res fs. extract_cms_data fetch = Some (res, fs) \<longrightarrow> x \<notin> set res"
    using no extract_result_allowed by blast
  with no show ?thesis by simp
qed

lemma short_pages:
  "paginate (one_page_source [a, b]) s 0 res fs =
     Some (res @ filter in_specialty_filter (rows (one_page_source [a, b] s 0)), fs @ [(s, 0)])"
proof -
  have "\<not> full_page (one_page_source [a, b] s 0)"
    by (simp add: one_page_source_def full_page_def CHUNK_SIZE_def)
  then show ?thesis
    using paginate_last[of "one_page_source [a, b]" s 0 res fs] by (simp add: kept_def)
qed

theorem missing_specialty_never_extracted_witness:
  "map_of [(''npi'', JStr ''333''), (''pri_spec'', JNull :: int json)] ''pri_spec'' = Some JNull \<and>
   \<not> in_specialty_filter [(''npi'', JStr ''333''), (''pri_spec'', JNull :: int json)] \<and>
   extract_cms_data (one_page_source [[(''npi'', JStr ''333''), (''pri_spec'', JNull)], demo_row])
     = Some ([demo_row], [(''AL'', 0), (''SD'', 0)])"
proof -
  have h: "map_of [(''npi'', JStr ''333''), (''pri_spec'', JNull :: int json)] ''pri_spec'' = None
      \<or> map_of [(''npi'', JStr ''333''), (''pri_spec'', JNull :: int json)] ''pri_spec'' = Some JNull"
    by simp
  have no: "\<not> in_specialty_filter [(''npi'', JStr ''333''), (''pri_spec'', JNull :: int json)]"
    using missing_specialty_never_extracted [OF h, of "[]" "[]"] by (rule conjunct1)
  have run: "extract_cms_data (one_page_source [[(''npi'', JStr ''333''), (''pri_spec'', JNull)], demo_row])
     = Some ([demo_row], [(''AL'', 0), (''SD'', 0)])"
    using no
    by (simp add: extract_cms_data_def STATES_LIST_def short_pages one_page_source_def demo_row_allowed)
  show ?thesis using no run by simp
qed

section \<open>The two tables\<close>

lemma sample_run:
  "transform_data demo_lib 7 sample_input = Inr (sample_doctors, sample_locations)"
  by code_simp


lemma filter_label_masked:
  "filter (\<lambda>(l, vs). l = x) (map (\<lambda>(l, vs). (l, g vs)) cols) =
     map (\<lambda>(l, vs). (l, g vs)) (filter (\<lambda>(l, vs). l = x) cols)"
  by (induction cols) auto

lemma selected_npi_eq:
  "filter (\<lambda>(l, vs). l = ''npi'') (selected_columns lib now raw) =
   filter (\<lambda>(l, vs). l = ''npi'') (prepared_columns lib now raw)"
  unfolding selected_columns_def selected_filter by (simp add: doctor_cols_def)


lemma getitem_doctors_npi:
  assumes "transformable raw"
  shows "getitem (doctors_table lib now raw) ''npi'' =
     Inr [mask_rows (keep_mask lib now raw) (map (npi_key lib raw) raw)]"
  unfolding getitem_def doctors_table_def frame.simps filter_label_masked selected_npi_eq
    npi_column[OF transformable_npi[OF assms]]
  by simp


lemma labels_doctors_list:
  "labels (doctors_table lib now raw) = map fst (selected_columns lib now raw)"
  by (simp add: labels_def doctors_table_def o_def split_def)






text \<open>
  Claim C5. Whenever the transformation returns, the second table has one row for each
  record of the input, in the input's order: its index is \<open>0, \<dots>, n - 1\<close> for an
  input of \<open>n\<close> records and each of its columns has \<open>n\<close> cells.
\<close>

theorem locations_one_row_per_record:
  assumes "transform_data lib now raw_list = Inr (df_doctors, df_specialty_and_locations)"
  shows "length (index df_specialty_and_locations) = length raw_list \<and>
         index df_specialty_and_locations = [0..<length raw_list] \<and>
         list_all (\<lambda>(l, vs). length vs = length raw_list) (columns df_specialty_and_locations)"
proof -
  from transform_Inr[OF assms] have
    sl: "df_specialty_and_locations = locations_table lib now raw_list"
    by simp
  have "list_all (\<lambda>(l, vs). length vs = length raw_list) (prepared_columns lib now raw_list)"
    by (simp add: prepared_columns_def list_all_iff)
  then have "list_all (\<lambda>(l, vs). length vs = length raw_list) (columns df_specialty_and_locations)"
    by (simp add: sl locations_table_def list_all_iff)
  then show ?thesis by (simp add: sl locations_table_def)
qed

theorem locations_one_row_per_record_witness:
  "transform_data demo_lib 7 sample_input = Inr (sample_doctors, sample_locations) \<and>
   length sample_input = 3 \<and> index sample_locations = [0, 1, 2]"
  using locations_one_row_per_record[OF sample_run] sample_run
  by (simp add: sample_input_def sample_locations_def)

lemma sample_transformable: "transformable sample_input"
  by code_simp

lemma same_keys:
  assumes "union_keys raw' = union_keys raw"
  shows "label_count raw' l = label_count raw l" and "missing_labels raw' = missing_labels raw"
  using assms by (simp_all add: label_count_def missing_labels_def)

lemma outcome_same_keys:
  assumes "union_keys raw' = union_keys raw"
  shows "case transform_outcome lib now raw of
           Inl e \<Rightarrow> transform_outcome lib' now' raw' = Inl e
         | Inr out \<Rightarrow> (\<exists>out'. transform_outcome lib' now' raw' = Inr out')"
  unfolding transform_outcome_def same_keys[OF assms] by simp

text \<open>
  Claim C2, as stated, fails: on the empty list the conversion of line 122 finds no
  column \<open>graduation_year\<close> and raises KeyError.
\<close>

theorem transform_empty_raises:
  "transform_data demo_lib 7 [] = Inl (KeyError [''graduation_year''])"
  by code_simp

text \<open>
  Claim C2, amended. The transformation returns exactly on the inputs whose field names
  put, after the rename, each of the two numeric labels on one column and every doctor
  label other than the timestamp on some column. On every other input it raises, at
  the first step in the order of the code that fails: KeyError for
  \<open>graduation_year\<close> where no column has the label and TypeError where several have
  it,
  then the same for \<open>number_of_group_members\<close>, then KeyError with the doctor labels
  that no column has. Whether and how it raises depends on the field names of the
  input only, not on the values of the fields, the library or the clock.
\<close>

theorem transform_returns_iff:
  "(label_count raw_list ''graduation_year'' = 0 \<longrightarrow>
      transform_data lib now raw_list = Inl (KeyError [''graduation_year''])) \<and>
   (1 < label_count raw_list ''graduation_year'' \<longrightarrow>
      transform_data lib now raw_list = Inl TypeError) \<and>
   (label_count raw_list ''graduation_year'' = 1 \<and>
    label_count raw_list ''number_of_group_members'' = 0 \<longrightarrow>
      transform_data lib now raw_list = Inl (KeyError [''number_of_group_members''])) \<and>
   (label_count raw_list ''graduation_year'' = 1 \<and>
    1 < label_count raw_list ''number_of_group_members'' \<longrightarrow>
      transform_data lib now raw_list = Inl TypeError) \<and>
   (label_count raw_list ''graduation_year'' = 1 \<and>
    label_count raw_list ''number_of_group_members'' = 1 \<and> missing_labels raw_list \<noteq> [] \<longrightarrow>
      transform_data lib now raw_list = Inl (KeyError (missing_labels raw_list))) \<and>
   ((\<exists>out. transform_data lib now raw_list = Inr out) \<longleftrightarrow>
      label_count raw_list ''graduation_year'' = 1 \<and>
      label_count raw_list ''number_of_group_members'' = 1 \<and> missing_labels raw_list = []) \<and>
   (\<forall>lib' now' raw'. union_keys raw' = union_keys raw_list \<longrightarrow>
      (case transform_data lib now raw_list of
         Inl e \<Rightarrow> transform_data lib' now' raw' = Inl e
       | Inr out \<Rightarrow> (\<exists>out'. transform_data lib' now' raw' = Inr out')))"
proof (intro conjI)
  show "label_count raw_list ''graduation_year'' = 0 \<longrightarrow>
      transform_data lib now raw_list = Inl (KeyError [''graduation_year''])"
    by (simp add: transform_result transform_outcome_def)
  show "1 < label_count raw_list ''graduation_year'' \<longrightarrow>
      transform_data lib now raw_list = Inl TypeError"
    by (simp add: transform_result transform_outcome_def)
  show "label_count raw_list ''graduation_year'' = 1 \<and>
    label_count raw_list ''number_of_group_members'' = 0 \<longrightarrow>
      transform_data lib now raw_list = Inl (KeyError [''number_of_group_members''])"
    by (simp add: transform_result transform_outcome_def)
  show "label_count raw_list ''graduation_year'' = 1 \<and>
    1 < label_count raw_list ''number_of_group_members'' \<longrightarrow>
      transform_data lib now raw_list = Inl TypeError"
    by (simp add: transform_result transform_outcome_def)
  show "label_count raw_list ''graduation_year'' = 1 \<and>
    label_count raw_list ''number_of_group_members'' = 1 \<and> missing_labels raw_list \<noteq> [] \<longrightarrow>
      transform_data lib now raw_list = Inl (KeyError (missing_labels raw_list))"
    by (simp add: transform_result transform_outcome_def)
  show "(\<exists>out. transform_data lib now raw_list = Inr out) \<longleftrightarrow>
      label_count raw_list ''graduation_year'' = 1 \<and>
      label_count raw_list ''number_of_group_members'' = 1 \<and> missing_labels raw_list = []"
    unfolding transform_result transform_outcome_def by (auto split: if_splits)
  show "\<forall>lib' now' raw'. union_keys raw' = union_keys raw_list \<longrightarrow>
      (case transform_data lib now raw_list of
         Inl e \<Rightarrow> transform_data lib' now' raw' = Inl e
       | Inr out \<Rightarrow> (\<exists>out'. transform_data lib' now' raw' = Inr out'))"
    unfolding transform_result using outcome_same_keys by blast
qed

theorem transform_returns_iff_witness:
  "label_count sample_input ''graduation_year'' = 1 \<and>
   label_count sample_input ''number_of_group_members'' = 1 \<and>
   missing_labels sample_input = [] \<and>
   (\<exists>out. transform_data demo_lib 7 sample_input = Inr out) \<and>
   1 < label_count doubled_input ''graduation_year'' \<and>
   transform_data demo_lib 7 doubled_input = Inl TypeError"
proof -
  have a: "label_count sample_input ''graduation_year'' = 1" by code_simp
  have b: "label_count sample_input ''number_of_group_members'' = 1" by code_simp
  have c: "missing_labels sample_input = []" by code_simp
  have d: "1 < label_count doubled_input ''graduation_year''" by code_simp
  have r: "\<exists>out. transform_data demo_lib 7 sample_input = Inr out"
    using transform_returns_iff[of sample_input demo_lib 7] a b c by blast
  have e: "transform_data demo_lib 7 doubled_input = Inl TypeError"
    using transform_returns_iff[of doubled_input demo_lib 7] d by blast
  from a b c d r e show ?thesis by blast
qed

lemma extra_run:
  "transform_data demo_lib 7 extra_input = Inr (extra_doctors, extra_locations)"
  by code_simp

text \<open>
  Claim C3, as stated, fails: the field \<open>foo\<close> is no key of the rename map, and the
  second table has a column \<open>foo\<close> with its value.
\<close>

theorem unknown_field_in_locations:
  "map_of rename_map ''foo'' = None \<and>
   transform_data demo_lib 7 extra_input = Inr (extra_doctors, extra_locations) \<and>
   (''foo'', [Str ''bar'']) \<in> set (columns extra_locations)"
proof -
  have "map_of rename_map ''foo'' = None" by code_simp
  then show ?thesis by (simp add: extra_run extra_locations_def)
qed

lemma labels_of_prepared:
  "fst ` set (prepared_columns lib now raw) =
     insert ''bq_load_dttm'' (rename_label ` set (union_keys raw))"
  using labels_prepared[of "[]" lib now raw] by (simp add: labels_def)

lemma labels_of_filter:
  "fst ` set (filter (\<lambda>(l, vs). l \<notin> D) cols) = fst ` set cols - D"
  by (induction cols) auto

lemma labels_of_masked:
  "fst ` (\<lambda>(l, vs). (l, g vs)) ` S = fst ` S"
  by force

lemma labels_of_selected:
  "fst ` set (selected_columns lib now raw) =
     fst ` set (prepared_columns lib now raw) \<inter> set doctor_cols"
  unfolding selected_columns_def selected_set by force

lemma labels_locations:
  "set (labels (locations_table lib now raw)) =
     insert ''bq_load_dttm'' (rename_label ` set (union_keys raw)) - set doctor_only"
  by (simp only: labels_def locations_table_def frame.simps set_map labels_of_filter
      labels_of_prepared)

lemma labels_doctors:
  "set (labels (doctors_table lib now raw)) =
     insert ''bq_load_dttm'' (rename_label ` set (union_keys raw)) \<inter> set doctor_cols"
  by (simp only: labels_def doctors_table_def frame.simps set_map labels_of_masked
      labels_of_selected labels_of_prepared)

lemma column_in_prepared:
  assumes "c \<in> set (union_keys raw)"
  shows "(rename_label c, map (out_cell lib now raw c) raw) \<in> set (prepared_columns lib now raw)"
proof -
  have "(rename_label c, map (out_cell lib now raw c) raw) \<in>
      (\<lambda>c. (rename_label c, map (out_cell lib now raw c) raw)) ` set (union_keys raw)"
    using assms by (rule imageI)
  then show ?thesis by (simp add: prepared_columns_def)
qed

lemma column_in_locations:
  assumes "c \<in> set (union_keys raw)" and "rename_label c \<notin> set doctor_only"
  shows "(rename_label c, map (out_cell lib now raw c) raw)
     \<in> set (columns (locations_table lib now raw))"
  using column_in_prepared[OF assms(1), of lib now] assms(2)
  by (simp add: locations_table_def)

text \<open>
  Claim C3, amended. A field whose source name is no key of the rename map keeps its
  name. It has a column in the second table unless its name is one of the seven labels
  dropped at line 141, and there the column holds the field's cells; the doctors table
  has a column of that name only if the name is one of the doctor labels.
\<close>

theorem unknown_field_kept:
  assumes "transform_data lib now raw_list = Inr (df_doctors, df_specialty_and_locations)"
    and "c \<in> set (union_keys raw_list)"
    and "map_of rename_map c = None"
  shows "(c \<in> set (labels df_specialty_and_locations) \<longleftrightarrow> c \<notin> set doctor_only) \<and>
         (c \<in> set (labels df_doctors) \<longleftrightarrow> c \<in> set doctor_cols) \<and>
         (c \<notin> set doctor_only \<longrightarrow>
            (c, map (out_cell lib now raw_list c) raw_list)
              \<in> set (columns df_specialty_and_locations))"
proof -
  from transform_Inr[OF assms(1)] have
    d: "df_doctors = doctors_table lib now raw_list"
    and sl: "df_specialty_and_locations = locations_table lib now raw_list"
    by simp_all
  have r: "rename_label c = c" using assms(3) by (rule rename_label_unknown)
  have mem: "c \<in> rename_label ` set (union_keys raw_list)"
    using assms(2) r by (metis imageI)
  have 1: "c \<in> set (labels df_specialty_and_locations) \<longleftrightarrow> c \<notin> set doctor_only"
    unfolding sl labels_locations using mem by blast
  have 2: "c \<in> set (labels df_doctors) \<longleftrightarrow> c \<in> set doctor_cols"
    unfolding d labels_doctors using mem by blast
  have 3: "c \<notin> set doctor_only \<longrightarrow>
      (c, map (out_cell lib now raw_list c) raw_list) \<in> set (columns df_specialty_and_locations)"
    unfolding sl using column_in_locations[OF assms(2), of lib now] r by simp
  from 1 2 3 show ?thesis by simp
qed

theorem unknown_field_kept_witness:
  "transform_data demo_lib 7 extra_input = Inr (extra_doctors, extra_locations) \<and>
   ''foo'' \<in> set (union_keys extra_input) \<and> map_of rename_map ''foo'' = None \<and>
   ''foo'' \<in> set (labels extra_locations) \<and> ''foo'' \<notin> set (labels extra_doctors)"
proof -
  have k: "''foo'' \<in> set (union_keys extra_input)" by code_simp
  have m: "map_of rename_map ''foo'' = None" by code_simp
  have a: "''foo'' \<notin> set doctor_only" by (simp add: doctor_only_def)
  have b: "''foo'' \<notin> set doctor_cols" by (simp add: doctor_cols_def)
  show ?thesis
    using unknown_field_kept[OF extra_run k m] extra_run k m a b by simp
qed

lemma masked_column:
  "mask_rows m (map f raw) = map (\<lambda>i. f (raw ! i)) (mask_rows m [0..<length raw])"
proof -
  have "mask_rows m (map f raw) = map f (mask_rows m raw)" by (rule mask_rows_map)
  also have "mask_rows m raw = map ((!) raw) (mask_rows m [0..<length raw])"
    by (rule mask_rows_nth)
  finally show ?thesis by (simp add: o_def)
qed

lemma column_in_doctors:
  assumes "c \<in> set (union_keys raw)" and "rename_label c \<in> set doctor_cols"
  shows "(rename_label c,
      map (\<lambda>i. out_cell lib now raw c (raw ! i)) (index (doctors_table lib now raw)))
     \<in> set (columns (doctors_table lib now raw))"
proof -
  have "(rename_label c, map (out_cell lib now raw c) raw) \<in> set (selected_columns lib now raw)"
    using column_in_prepared[OF assms(1), of lib now] assms(2)
    by (simp add: selected_columns_def selected_set)
  then have "(\<lambda>(l, vs). (l, mask_rows (keep_mask lib now raw) vs))
        (rename_label c, map (out_cell lib now raw c) raw)
      \<in> (\<lambda>(l, vs). (l, mask_rows (keep_mask lib now raw) vs)) ` set (selected_columns lib now raw)"
    by (rule imageI)
  then show ?thesis
    by (simp add: doctors_table_def masked_column)
qed

text \<open>The rows that a deduplication by the key \<open>k\<close> keeps.\<close>

lemma first_positions:
  "mask_rows (map Not (duplicated [] (map k xs))) [0..<length xs] =
     filter (\<lambda>i. k (xs ! i) \<notin> k ` set (take i xs)) [0..<length xs]"
proof -
  have "mask_rows (map Not (duplicated [] (map k xs))) [0..<length xs] =
      filter (\<lambda>i. map k xs ! (i - 0) \<notin> set [] \<union> set (take (i - 0) (map k xs)))
        [0..<0 + length (map k xs)]"
    using first_positions_from[of "[]" "map k xs" 0] by simp
  also have "\<dots> = filter (\<lambda>i. k (xs ! i) \<notin> k ` set (take i xs)) [0..<length xs]"
    by (rule filter_cong) (auto simp: take_map)
  finally show ?thesis .
qed

lemma first_rows:
  assumes "ix = mask_rows (map Not (duplicated [] (map k xs))) [0..<length xs]"
  shows "ix = filter (\<lambda>i. k (xs ! i) \<notin> k ` set (take i xs)) [0..<length xs] \<and>
         distinct (map (\<lambda>i. k (xs ! i)) ix) \<and>
         set (map (\<lambda>i. k (xs ! i)) ix) = k ` set xs"
proof -
  let ?m = "map Not (duplicated [] (map k xs))"
  have col: "map (\<lambda>i. k (xs ! i)) ix = mask_rows ?m (map k xs)"
    unfolding assms by (rule masked_column[symmetric])
  have 1: "ix = filter (\<lambda>i. k (xs ! i) \<notin> k ` set (take i xs)) [0..<length xs]"
    unfolding assms by (rule first_positions)
  have 2: "distinct (map (\<lambda>i. k (xs ! i)) ix)"
    unfolding col by (rule distinct_first_seen)
  have 3: "set (map (\<lambda>i. k (xs ! i)) ix) = k ` set xs"
    unfolding col using set_first_seen[of "[]" "map k xs"] by simp
  from 1 2 3 show ?thesis by (intro conjI)
qed

lemma duplicated_map_inj_on:
  "inj_on f (set seen \<union> set ks) \<Longrightarrow> duplicated (map f seen) (map f ks) = duplicated seen ks"
proof (induction ks arbitrary: seen)
  case Nil
  then show ?case by simp
next
  case (Cons k ks)
  have "(f k \<in> f ` set seen) = (k \<in> set seen)"
    using Cons.prems by (auto dest: inj_onD)
  moreover have "inj_on f (set (k # seen) \<union> set ks)"
    using Cons.prems by (simp add: insert_commute Un_commute)
  ultimately show ?case using Cons.IH[of "k # seen"] by simp
qed

text \<open>
  On records that all have a string for \<open>npi\<close>, two keys of the deduplication are equal
  exactly when the two strings are, whichever way line 139 compares them.
\<close>

lemma string_keys:
  assumes "\<forall>r\<in>set raw. \<exists>s. map_of r ''npi'' = Some (JStr s)"
  shows "duplicated [] (dedup_keys lib now raw) = duplicated [] (map (\<lambda>r. map_of r ''npi'') raw)"
proof -
  let ?col = "map (\<lambda>r. map_of r ''npi'') raw"
  let ?f = "\<lambda>v. replace_cell (cell_of lib ?col v)"
  let ?g = "\<lambda>v. fold_null (replace_cell (cell_of lib ?col v))"
  have strs: "\<forall>v\<in>set ?col. \<exists>s. v = Some (JStr s)" using assms by auto
  have f: "inj_on ?f (set [] \<union> set ?col)"
  proof (rule inj_onI)
    fix a b assume a: "a \<in> set [] \<union> set ?col" and b: "b \<in> set [] \<union> set ?col"
      and e: "?f a = ?f b"
    from a strs obtain s where s: "a = Some (JStr s)" by fastforce
    from b strs obtain t where t: "b = Some (JStr t)" by fastforce
    from e show "a = b" unfolding s t by (simp split: if_splits)
  qed
  have g: "inj_on ?g (set [] \<union> set ?col)"
  proof (rule inj_onI)
    fix a b assume a: "a \<in> set [] \<union> set ?col" and b: "b \<in> set [] \<union> set ?col"
      and e: "?g a = ?g b"
    from a strs obtain s where s: "a = Some (JStr s)" by fastforce
    from b strs obtain t where t: "b = Some (JStr t)" by fastforce
    from e show "a = b" unfolding s t by (simp split: if_splits)
  qed
  have kf: "map (npi_key lib raw) raw = map ?f ?col"
    by (simp add: npi_key_def clean_cell_def o_def)
  have kg: "map fold_null (map (npi_key lib raw) raw) = map ?g ?col"
    by (simp add: npi_key_def clean_cell_def o_def)
  show ?thesis
  proof (cases "distinct (map fst (selected_columns lib now raw))")
    case True
    then have "dedup_keys lib now raw = map ?f ?col" by (simp only: dedup_keys_def kf if_True)
    then show ?thesis using duplicated_map_inj_on[OF f] by simp
  next
    case False
    then have "dedup_keys lib now raw = map ?g ?col" by (simp only: dedup_keys_def kg if_False)
    then show ?thesis using duplicated_map_inj_on[OF g] by simp
  qed
qed

lemma anonymous_run:
  "transform_data demo_lib 7 anonymous_input = Inr (anonymous_doctors, anonymous_locations)"
  by code_simp

text \<open>
  Claim C4, as stated, fails: the first record has no field \<open>npi\<close> and the second has
  the empty string for it, so that the input holds one \<open>npi\<close> value, and no other than
  null after line 119; the doctors table has a row for each of the two records.
\<close>

theorem missing_and_empty_npi_two_rows:
  "map_of (anonymous_input ! 0) ''npi'' = None \<and>
   map_of (anonymous_input ! 1) ''npi'' = Some (JStr '''') \<and>
   transform_data demo_lib 7 anonymous_input = Inr (anonymous_doctors, anonymous_locations) \<and>
   index anonymous_doctors = [0, 1] \<and>
   getitem anonymous_doctors ''npi'' = Inr [[NaN, PyNone]]"
proof -
  have "map_of (anonymous_input ! 0) ''npi'' = None" by code_simp
  moreover have "map_of (anonymous_input ! 1) ''npi'' = Some (JStr '''')" by code_simp
  moreover have "getitem anonymous_doctors ''npi'' = Inr [[NaN, PyNone]]" by code_simp
  ultimately show ?thesis by (simp add: anonymous_run anonymous_doctors_def)
qed

text \<open>
  Claim C4, amended. The key of a record is its \<open>npi\<close> cell after line 119: NaN where
  the record has no such field, None for the empty string, NaN or None as the library
  has it for a JSON null, the value otherwise. Line 139 compares the keys as they are
  where the labels of the doctors table are all different, and with all missing keys
  as one where a label is repeated. Whenever the transformation returns, the rows of
  the doctors table are the records whose key, so compared, no earlier record has, in
  input order: one row for each key of the input; the \<open>npi\<close> column holds the keys of
  these records; and under every doctor label the row holds the cell of that first
  record. Where every record of the input has a string for \<open>npi\<close>, the rows are the
  records whose \<open>npi\<close> no earlier record has: one row for each \<open>npi\<close> value of the
  input, the row of the first record that has it.
\<close>

theorem doctors_first_occurrence:
  assumes "transform_data lib now raw_list = Inr (df_doctors, df_specialty_and_locations)"
  shows "(distinct (labels df_doctors) \<longrightarrow>
            index df_doctors =
              filter (\<lambda>i. npi_key lib raw_list (raw_list ! i)
                            \<notin> npi_key lib raw_list ` set (take i raw_list))
                [0..<length raw_list] \<and>
            distinct (map (\<lambda>i. npi_key lib raw_list (raw_list ! i)) (index df_doctors)) \<and>
            set (map (\<lambda>i. npi_key lib raw_list (raw_list ! i)) (index df_doctors)) =
              npi_key lib raw_list ` set raw_list) \<and>
         (\<not> distinct (labels df_doctors) \<longrightarrow>
            index df_doctors =
              filter (\<lambda>i. fold_null (npi_key lib raw_list (raw_list ! i))
                            \<notin> (\<lambda>r. fold_null (npi_key lib raw_list r)) ` set (take i raw_list))
                [0..<length raw_list] \<and>
            distinct (map (\<lambda>i. fold_null (npi_key lib raw_list (raw_list ! i))) (index df_doctors)) \<and>
            set (map (\<lambda>i. fold_null (npi_key lib raw_list (raw_list ! i))) (index df_doctors)) =
              (\<lambda>r. fold_null (npi_key lib raw_list r)) ` set raw_list) \<and>
         getitem df_doctors ''npi'' =
           Inr [map (\<lambda>i. npi_key lib raw_list (raw_list ! i)) (index df_doctors)] \<and>
         (\<forall>c\<in>set (union_keys raw_list). rename_label c \<in> set doctor_cols \<longrightarrow>
            (rename_label c, map (\<lambda>i. out_cell lib now raw_list c (raw_list ! i)) (index df_doctors))
              \<in> set (columns df_doctors)) \<and>
         ((\<forall>r\<in>set raw_list. \<exists>s. map_of r ''npi'' = Some (JStr s)) \<longrightarrow>
            index df_doctors =
              filter (\<lambda>i. map_of (raw_list ! i) ''npi''
                            \<notin> (\<lambda>r. map_of r ''npi'') ` set (take i raw_list))
                [0..<length raw_list] \<and>
            distinct (map (\<lambda>i. map_of (raw_list ! i) ''npi'') (index df_doctors)) \<and>
            set (map (\<lambda>i. map_of (raw_list ! i) ''npi'') (index df_doctors)) =
              (\<lambda>r. map_of r ''npi'') ` set raw_list)"
proof -
  from transform_Inr[OF assms] have t: "transformable raw_list"
    and d: "df_doctors = doctors_table lib now raw_list"
    by simp_all
  have ix: "index df_doctors = mask_rows (keep_mask lib now raw_list) [0..<length raw_list]"
    by (simp add: d doctors_table_def)
  have lb: "distinct (labels df_doctors) = distinct (map fst (selected_columns lib now raw_list))"
    by (simp only: d labels_doctors_list)
  have 1: "distinct (labels df_doctors) \<longrightarrow>
            index df_doctors =
              filter (\<lambda>i. npi_key lib raw_list (raw_list ! i)
                            \<notin> npi_key lib raw_list ` set (take i raw_list))
                [0..<length raw_list] \<and>
            distinct (map (\<lambda>i. npi_key lib raw_list (raw_list ! i)) (index df_doctors)) \<and>
            set (map (\<lambda>i. npi_key lib raw_list (raw_list ! i)) (index df_doctors)) =
              npi_key lib raw_list ` set raw_list"
  proof
    assume "distinct (labels df_doctors)"
    then have "index df_doctors =
        mask_rows (map Not (duplicated [] (map (npi_key lib raw_list) raw_list))) [0..<length raw_list]"
      by (simp add: ix lb keep_mask_def dedup_keys_def)
    then show "index df_doctors =
              filter (\<lambda>i. npi_key lib raw_list (raw_list ! i)
                            \<notin> npi_key lib raw_list ` set (take i raw_list))
                [0..<length raw_list] \<and>
            distinct (map (\<lambda>i. npi_key lib raw_list (raw_list ! i)) (index df_doctors)) \<and>
            set (map (\<lambda>i. npi_key lib raw_list (raw_list ! i)) (index df_doctors)) =
              npi_key lib raw_list ` set raw_list"
      by (rule first_rows)
  qed
  have 2: "\<not> distinct (labels df_doctors) \<longrightarrow>
            index df_doctors =
              filter (\<lambda>i. fold_null (npi_key lib raw_list (raw_list ! i))
                            \<notin> (\<lambda>r. fold_null (npi_key lib raw_list r)) ` set (take i raw_list))
                [0..<length raw_list] \<and>
            distinct (map (\<lambda>i. fold_null (npi_key lib raw_list (raw_list ! i))) (index df_doctors)) \<and>
            set (map (\<lambda>i. fold_null (npi_key lib raw_list (raw_list ! i))) (index df_doctors)) =
              (\<lambda>r. fold_null (npi_key lib raw_list r)) ` set raw_list"
  proof
    assume "\<not> distinct (labels df_doctors)"
    then have "index df_doctors =
        mask_rows (map Not (duplicated []
          (map (\<lambda>r. fold_null (npi_key lib raw_list r)) raw_list))) [0..<length raw_list]"
      by (simp add: ix lb keep_mask_def dedup_keys_def o_def)
    then show "index df_doctors =
              filter (\<lambda>i. fold_null (npi_key lib raw_list (raw_list ! i))
                            \<notin> (\<lambda>r. fold_null (npi_key lib raw_list r)) ` set (take i raw_list))
                [0..<length raw_list] \<and>
            distinct (map (\<lambda>i. fold_null (npi_key lib raw_list (raw_list ! i))) (index df_doctors)) \<and>
            set (map (\<lambda>i. fold_null (npi_key lib raw_list (raw_list ! i))) (index df_doctors)) =
              (\<lambda>r. fold_null (npi_key lib raw_list r)) ` set raw_list"
      by (rule first_rows)
  qed
  have col: "mask_rows (keep_mask lib now raw_list) (map (npi_key lib raw_list) raw_list) =
      map (\<lambda>i. npi_key lib raw_list (raw_list ! i)) (index df_doctors)"
    unfolding ix by (rule masked_column)
  have 3: "getitem df_doctors ''npi'' =
      Inr [map (\<lambda>i. npi_key lib raw_list (raw_list ! i)) (index df_doctors)]"
    using getitem_doctors_npi[OF t, of lib now] by (simp only: d[symmetric] col)
  have 4: "\<forall>c\<in>set (union_keys raw_list). rename_label c \<in> set doctor_cols \<longrightarrow>
      (rename_label c, map (\<lambda>i. out_cell lib now raw_list c (raw_list ! i)) (index df_doctors))
        \<in> set (columns df_doctors)"
    unfolding d using column_in_doctors by blast
  have 5: "(\<forall>r\<in>set raw_list. \<exists>s. map_of r ''npi'' = Some (JStr s)) \<longrightarrow>
            index df_doctors =
              filter (\<lambda>i. map_of (raw_list ! i) ''npi''
                            \<notin> (\<lambda>r. map_of r ''npi'') ` set (take i raw_list))
                [0..<length raw_list] \<and>
            distinct (map (\<lambda>i. map_of (raw_list ! i) ''npi'') (index df_doctors)) \<and>
            set (map (\<lambda>i. map_of (raw_list ! i) ''npi'') (index df_doctors)) =
              (\<lambda>r. map_of r ''npi'') ` set raw_list"
  proof
    assume "\<forall>r\<in>set raw_list. \<exists>s. map_of r ''npi'' = Some (JStr s)"
    then have "duplicated [] (dedup_keys lib now raw_list) =
        duplicated [] (map (\<lambda>r. map_of r ''npi'') raw_list)"
      by (rule string_keys)
    then have "index df_doctors =
        mask_rows (map Not (duplicated [] (map (\<lambda>r. map_of r ''npi'') raw_list)))
          [0..<length raw_list]"
      by (simp add: ix keep_mask_def)
    then show "index df_doctors =
              filter (\<lambda>i. map_of (raw_list ! i) ''npi''
                            \<notin> (\<lambda>r. map_of r ''npi'') ` set (take i raw_list))
                [0..<length raw_list] \<and>
            distinct (map (\<lambda>i. map_of (raw_list ! i) ''npi'') (index df_doctors)) \<and>
            set (map (\<lambda>i. map_of (raw_list ! i) ''npi'') (index df_doctors)) =
              (\<lambda>r. map_of r ''npi'') ` set raw_list"
      by (rule first_rows)
  qed
  from 1 2 3 4 5 show ?thesis by (intro conjI)
qed

theorem doctors_first_occurrence_witness:
  "transform_data demo_lib 7 sample_input = Inr (sample_doctors, sample_locations) \<and>
   distinct (labels sample_doctors) \<and>
   map (\<lambda>r. map_of r ''npi'') sample_input =
     [Some (JStr ''111''), Some (JStr ''111''), Some (JStr ''222'')] \<and>
   index sample_doctors = [0, 2] \<and>
   getitem sample_doctors ''npi'' = Inr [[Str ''111'', Str ''222'']] \<and>
   map (\<lambda>i. map_of (sample_input ! i) ''npi'') (index sample_doctors) =
     [Some (JStr ''111''), Some (JStr ''222'')]"
proof -
  note t = doctors_first_occurrence[OF sample_run]
  have l: "distinct (labels sample_doctors)" by code_simp
  have k: "map (\<lambda>r. map_of r ''npi'') sample_input =
     [Some (JStr ''111''), Some (JStr ''111''), Some (JStr ''222'')]" by code_simp
  have g: "getitem sample_doctors ''npi'' = Inr [[Str ''111'', Str ''222'']]" by code_simp
  have i: "index sample_doctors = [0, 2]" by (simp add: sample_doctors_def)
  have m: "map (\<lambda>i. map_of (sample_input ! i) ''npi'') (index sample_doctors) =
     [Some (JStr ''111''), Some (JStr ''222'')]" by code_simp
  have s: "\<forall>r\<in>set sample_input. \<exists>s. map_of r ''npi'' = Some (JStr s)"
    by (simp add: sample_input_def sample_record_def)
  have "distinct (map (\<lambda>i. map_of (sample_input ! i) ''npi'') (index sample_doctors))"
    using t s by blast
  then show ?thesis using sample_run l k g i m by simp
qed






section \<open>From the source to the tables\<close>


lemma one_page_run:
  assumes "length p < 1000"
  shows "extract_cms_data (one_page_source p) =
     Some (filter in_specialty_filter p, [(''AL'', 0), (''SD'', 0)])"
proof -
  have al: "\<not> full_page (one_page_source p ''AL'' 0)"
    using assms by (simp add: one_page_source_def full_page_def CHUNK_SIZE_def)
  have sd: "\<not> full_page (one_page_source p ''SD'' 0)"
    by (simp add: one_page_source_def full_page_def CHUNK_SIZE_def)
  have 1: "paginate (one_page_source p) ''AL'' 0 [] [] =
      Some (filter in_specialty_filter p, [(''AL'', 0)])"
    using paginate_last[of "one_page_source p" "''AL''" 0 "[]" "[]", OF al]
    by (simp add: kept_def one_page_source_def)
  have 2: "paginate (one_page_source p) ''SD'' 0 (filter in_specialty_filter p) [(''AL'', 0)] =
      Some (filter in_specialty_filter p, [(''AL'', 0), (''SD'', 0)])"
    using paginate_last[of "one_page_source p" "''SD''" 0 "filter in_specialty_filter p" "[(''AL'', 0)]", OF sd]
    by (simp add: kept_def one_page_source_def)
  show ?thesis
    by (simp add: extract_cms_data_def STATES_LIST_def 1 2)
qed

lemma mixed_extract:
  "extract_cms_data (one_page_source mixed_page) = Some (mixed_result, [(''AL'', 0), (''SD'', 0)])"
proof -
  have l: "length mixed_page < 1000" by (simp add: mixed_page_def)
  have f: "filter in_specialty_filter mixed_page = mixed_result" by code_simp
  show ?thesis using one_page_run[OF l] by (simp only: f)
qed

lemma mixed_run:
  "transform_data demo_lib 7 mixed_result = Inr (mixed_doctors, mixed_locations)"
  by code_simp

lemma key_runs_first:
  "list_all2 P ks ns \<Longrightarrow> s \<in> set ks \<Longrightarrow> (s, 0) \<in> set (key_runs ks ns)"
proof (induction ks ns rule: list_all2_induct)
  case Nil
  then show ?case by simp
next
  case (Cons k ks n ns)
  have "(k, 0) \<in> set (page_offsets k 0 (Suc n))"
    by (simp add: page_offsets_Suc_front)
  then show ?case using Cons by (auto simp: key_runs_Cons)
qed

lemma states_runs:
  assumes "list_all2 (last_page fetch) STATES_LIST ns"
  shows "\<exists>a b. key_runs STATES_LIST ns = page_offsets ''AL'' 0 (Suc a) @ page_offsets ''SD'' 0 (Suc b)"
proof -
  from assms obtain a b where "ns = [a, b]"
    by (auto simp: STATES_LIST_def list_all2_Cons1)
  then have "key_runs STATES_LIST ns = page_offsets ''AL'' 0 (Suc a) @ page_offsets ''SD'' 0 (Suc b)"
    by (simp add: STATES_LIST_def key_runs_def)
  then show ?thesis by blast
qed

lemma in_allow_list:
  "in_specialty_filter x \<longleftrightarrow>
     dict_get x ''pri_spec'' = JStr ''ORTHOPEDIC SURGERY'' \<or>
     dict_get x ''pri_spec'' = JStr ''DIAGNOSTIC RADIOLOGY''"
  by (cases "dict_get x ''pri_spec''") (auto simp: in_specialty_filter_def SPECIALTY_FILTER_def)


lemma index_doctors_bound:
  "i \<in> set (index (doctors_table lib now raw)) \<Longrightarrow> i < length raw"
  using set_mask_rows[of "keep_mask lib now raw" "[0..<length raw]"]
  by (auto simp: doctors_table_def)

text \<open>
  Claim C6. Whenever the extraction returns, every record of its result has one of the
  two allowed specialties under \<open>pri_spec\<close>; the fetches were made state by state in
  the order of \<open>STATES_LIST\<close>, page after page from offset 0 within a state, and the
  result is the rows that pass the filter, page by page in the order of the fetches.
  Every row of the two tables made from the result has as its index the position of a
  record of the result, which has an allowed specialty.
\<close>

theorem extraction_filtered_and_ordered:
  assumes "extract_cms_data fetch = Some (result, fetched)"
  shows "(\<forall>x\<in>set result. dict_get x ''pri_spec'' = JStr ''ORTHOPEDIC SURGERY'' \<or>
                          dict_get x ''pri_spec'' = JStr ''DIAGNOSTIC RADIOLOGY'') \<and>
         (\<exists>a b. fetched = page_offsets ''AL'' 0 (Suc a) @ page_offsets ''SD'' 0 (Suc b)) \<and>
         result = concat (map (\<lambda>(s, off). filter in_specialty_filter (rows (fetch s off))) fetched) \<and>
         (\<forall>lib now df_doctors df_specialty_and_locations.
            transform_data lib now result = Inr (df_doctors, df_specialty_and_locations) \<longrightarrow>
            (\<forall>i\<in>set (index df_doctors) \<union> set (index df_specialty_and_locations).
               i < length result \<and> in_specialty_filter (result ! i)))"
proof -
  from extract_cms_data_Some[OF assms] obtain ns where
    ns: "list_all2 (last_page fetch) STATES_LIST ns"
    and f: "fetched = key_runs STATES_LIST ns"
    and r: "result = kept fetch fetched"
    by blast
  have allowed: "\<forall>x\<in>set result. in_specialty_filter x"
    using r kept_allowed by blast
  have 1: "\<forall>x\<in>set result. dict_get x ''pri_spec'' = JStr ''ORTHOPEDIC SURGERY'' \<or>
                          dict_get x ''pri_spec'' = JStr ''DIAGNOSTIC RADIOLOGY''"
    using allowed by (simp add: in_allow_list)
  have 2: "\<exists>a b. fetched = page_offsets ''AL'' 0 (Suc a) @ page_offsets ''SD'' 0 (Suc b)"
    unfolding f by (rule states_runs[OF ns])
  have 3: "result = concat (map (\<lambda>(s, off). filter in_specialty_filter (rows (fetch s off))) fetched)"
    using r by (simp add: kept_def)
  have 4: "\<forall>lib now df_doctors df_specialty_and_locations.
            transform_data lib now result = Inr (df_doctors, df_specialty_and_locations) \<longrightarrow>
            (\<forall>i\<in>set (index df_doctors) \<union> set (index df_specialty_and_locations).
               i < length result \<and> in_specialty_filter (result ! i))"
  proof (intro allI impI ballI)
    fix lib :: "'a library" and now d sl i
    assume t: "transform_data lib now result = Inr (d, sl)"
      and i: "i \<in> set (index d) \<union> set (index sl)"
    from transform_Inr[OF t] have d: "d = doctors_table lib now result"
      and sl: "sl = locations_table lib now result"
      by simp_all
    have "i < length result"
      using i index_doctors_bound[of i lib now result]
      by (auto simp: d sl locations_table_def)
    then show "i < length result \<and> in_specialty_filter (result ! i)"
      using allowed by simp
  qed
  from 1 2 3 4 show ?thesis by (intro conjI)
qed

theorem extraction_filtered_and_ordered_witness:
  "extract_cms_data (one_page_source mixed_page) = Some (mixed_result, [(''AL'', 0), (''SD'', 0)]) \<and>
   transform_data demo_lib 7 mixed_result = Inr (mixed_doctors, mixed_locations) \<and>
   index mixed_doctors = [0] \<and> index mixed_locations = [0, 1] \<and>
   in_specialty_filter (mixed_result ! 0) \<and> in_specialty_filter (mixed_result ! 1)"
proof -
  note rows_allowed = extraction_filtered_and_ordered[OF mixed_extract,
      THEN conjunct2, THEN conjunct2, THEN conjunct2, rule_format, OF mixed_run]
  have d: "index mixed_doctors = [0]" by (simp add: mixed_doctors_def)
  have sl: "index mixed_locations = [0, 1]" by (simp add: mixed_locations_def)
  have "0 \<in> set (index mixed_doctors) \<union> set (index mixed_locations)" by (simp add: d)
  from rows_allowed[OF this] have 0: "in_specialty_filter (mixed_result ! 0)" by simp
  have "1 \<in> set (index mixed_doctors) \<union> set (index mixed_locations)" by (simp add: sl)
  from rows_allowed[OF this] have 1: "in_specialty_filter (mixed_result ! 1)" by simp
  show ?thesis using mixed_extract mixed_run d sl 0 1 by simp
qed

lemma page_offsets_Suc_back:
  "page_offsets s 0 (Suc n) = page_offsets s 0 n @ [(s, n * CHUNK_SIZE)]"
  by (simp add: page_offsets_def)

lemma failed_run:
  assumes "\<forall>i<n. full_page (fetch s (i * CHUNK_SIZE))" and "fetch s (n * CHUNK_SIZE) = Failed"
  shows "paginate fetch s 0 result fetched =
     Some (result @ kept fetch (page_offsets s 0 n), fetched @ page_offsets s 0 (Suc n))"
proof -
  have "last_page fetch s n"
    using assms by (simp add: last_page_def full_page_def)
  then have "paginate fetch s 0 result fetched =
     Some (result @ kept fetch (page_offsets s 0 (Suc n)), fetched @ page_offsets s 0 (Suc n))"
    by (rule paginate_0_run)
  moreover have "kept fetch (page_offsets s 0 (Suc n)) = kept fetch (page_offsets s 0 n)"
    unfolding page_offsets_Suc_back kept_append using assms(2) by (simp add: kept_def)
  ultimately show ?thesis by simp
qed

text \<open>
  Claim C8. Let the fetch of a state fail after \<open>n\<close> full pages. Then the loop of that
  state ends with this fetch, and the extraction goes on to the remaining states with
  everything accumulated so far: the result it had and the rows kept from the \<open>n\<close>
  pages. If the extraction returns, its result begins with these records, and every
  remaining state has been fetched from offset 0.
\<close>

theorem fetch_failure_isolated:
  assumes "\<forall>i<n. full_page (fetch s (i * CHUNK_SIZE))"
    and "fetch s (n * CHUNK_SIZE) = Failed"
  shows "paginate fetch s 0 result fetched =
           Some (result @ kept fetch (page_offsets s 0 n), fetched @ page_offsets s 0 (Suc n)) \<and>
         extract_states fetch (s # states) result fetched =
           extract_states fetch states
             (result @ kept fetch (page_offsets s 0 n)) (fetched @ page_offsets s 0 (Suc n)) \<and>
         (\<forall>result' fetched'.
            extract_states fetch (s # states) result fetched = Some (result', fetched') \<longrightarrow>
            (\<exists>more. result' = result @ kept fetch (page_offsets s 0 n) @ more) \<and>
            (\<forall>s'\<in>set states. (s', 0) \<in> set fetched'))"
proof -
  note run = failed_run[where fetch = fetch and s = s and n = n and result = result and fetched = fetched, OF assms]
  have step: "extract_states fetch (s # states) result fetched =
      extract_states fetch states
        (result @ kept fetch (page_offsets s 0 n)) (fetched @ page_offsets s 0 (Suc n))"
    by (simp add: run)
  have after: "\<forall>result' fetched'.
      extract_states fetch (s # states) result fetched = Some (result', fetched') \<longrightarrow>
      (\<exists>more. result' = result @ kept fetch (page_offsets s 0 n) @ more) \<and>
      (\<forall>s'\<in>set states. (s', 0) \<in> set fetched')"
  proof (intro allI impI)
    fix result' fetched'
    assume "extract_states fetch (s # states) result fetched = Some (result', fetched')"
    then have "extract_states fetch states
        (result @ kept fetch (page_offsets s 0 n)) (fetched @ page_offsets s 0 (Suc n)) =
        Some (result', fetched')"
      by (simp only: step)
    from extract_states_Some[OF this] obtain ns where
      ns: "list_all2 (last_page fetch) states ns"
      and out: "(result', fetched') =
        ((result @ kept fetch (page_offsets s 0 n)) @ kept fetch (key_runs states ns),
         (fetched @ page_offsets s 0 (Suc n)) @ key_runs states ns)"
      by blast
    have a: "\<exists>more. result' = result @ kept fetch (page_offsets s 0 n) @ more"
      using out by simp
    have b: "\<forall>s'\<in>set states. (s', 0) \<in> set fetched'"
      using out key_runs_first[OF ns] by simp
    from a b show "(\<exists>more. result' = result @ kept fetch (page_offsets s 0 n) @ more) \<and>
        (\<forall>s'\<in>set states. (s', 0) \<in> set fetched')"
      by (rule conjI)
  qed
  from run step after show ?thesis by (intro conjI)
qed

theorem fetch_failure_isolated_witness:
  "full_page (failing_source ''AL'' 0) \<and>
   failing_source ''AL'' 1000 = Failed \<and>
   extract_cms_data failing_source =
     Some (replicate 1000 demo_row @ [sample_record ''222'' ''1999'' ''DIAGNOSTIC RADIOLOGY''],
           [(''AL'', 0), (''AL'', 1000), (''SD'', 0)])"
proof -
  have full: "\<forall>i<1. full_page (failing_source ''AL'' (i * CHUNK_SIZE))"
    by (simp add: failing_source_def full_page_def CHUNK_SIZE_def)
  have failed: "failing_source ''AL'' (1 * CHUNK_SIZE) = Failed"
    by (simp add: failing_source_def CHUNK_SIZE_def)
  have sd: "\<not> full_page (failing_source ''SD'' 0)"
    by (simp add: failing_source_def full_page_def CHUNK_SIZE_def)
  have ok: "in_specialty_filter (sample_record ''222'' ''1999'' ''DIAGNOSTIC RADIOLOGY'')"
    by code_simp
  have al: "kept failing_source (page_offsets ''AL'' 0 1) = replicate 1000 demo_row"
    by (simp add: kept_def page_offsets_def failing_source_def demo_row_allowed)
  have offs: "page_offsets ''AL'' 0 (Suc 1) = [(''AL'', 0), (''AL'', 1000)]"
    by (simp add: page_offsets_def CHUNK_SIZE_def)
  have "extract_states failing_source (''AL'' # [''SD'']) [] [] =
      extract_states failing_source [''SD'']
        ([] @ kept failing_source (page_offsets ''AL'' 0 1)) ([] @ page_offsets ''AL'' 0 (Suc 1))"
    using fetch_failure_isolated[where fetch = failing_source and s = "''AL''" and n = 1
        and result = "[]" and fetched = "[]" and states = "[''SD'']", OF full failed] by (rule conjunct2[THEN conjunct1])
  also have "\<dots> = Some (replicate 1000 demo_row @ [sample_record ''222'' ''1999'' ''DIAGNOSTIC RADIOLOGY''],
           [(''AL'', 0), (''AL'', 1000), (''SD'', 0)])"
    unfolding al offs
    using paginate_last[of failing_source "''SD''" 0 "replicate 1000 demo_row" "[(''AL'', 0), (''AL'', 1000)]", OF sd] ok
    by (simp add: kept_def failing_source_def)
  finally have "extract_cms_data failing_source =
     Some (replicate 1000 demo_row @ [sample_record ''222'' ''1999'' ''DIAGNOSTIC RADIOLOGY''],
           [(''AL'', 0), (''AL'', 1000), (''SD'', 0)])"
    by (simp add: extract_cms_data_def STATES_LIST_def)
  moreover have "full_page (failing_source ''AL'' 0)" using full by simp
  ultimately show ?thesis by (simp add: failing_source_def)
qed

end
